theory Spec2Isabelle
  imports Complex_Main
begin

section \<open>Time-segment matching (srm/SRM.ipynb, \<open>time_segment_matching\<close>)\<close>

text \<open>
  The notebook's only function with an algorithm of its own is
  \<open>time_segment_matching(data, win_size=10)\<close>. It is embedded here statement by
  statement. The numpy operations the function calls (\<open>np.zeros\<close>, slicing, in-place
  addition and assignment with broadcasting, \<open>np.argmax\<close>) are written out with the
  failures they raise.

  A float64 entry is the real number it denotes; NaN and infinite entries of the input
  are not modelled. What floating-point arithmetic and the
  numeric libraries compute is not fixed by the notebook, so it is a parameter of the
  model, the record \<open>lib\<close> below: the rounded sum, difference and quotient of two
  numbers, the standardisation, the correlation, the mean and the standard deviation.
  Nothing is assumed of these operations unless a theorem says so. Two instances are
  given: \<open>exact\<close> computes in the reals, \<open>float64\<close> rounds every result to the nearest
  number with a 53-bit significand.
\<close>

subsection \<open>Errors\<close>

text \<open>
  \<open>IndexError\<close>, \<open>ValueError\<close> and \<open>ZeroDivisionError\<close> are the Python exceptions the
  function's statements can raise. \<open>InvalidWindowError\<close>, \<open>ShapeMismatchError\<close> and
  \<open>EmptyInputError\<close> are the error kinds the specification names; no statement of the
  source raises them, they are here so that statements about them can be written.
\<close>

datatype error =
    IndexError | ValueError | ZeroDivisionError
  | InvalidWindowError | ShapeMismatchError | EmptyInputError

subsection \<open>Two-dimensional arrays\<close>

text \<open>
  A 2-D numpy array is its shape and its entries. An array with no rows still has a
  column count (and the other way round), which \<open>np.zeros\<close>, \<open>np.argmax\<close> and
  \<open>compute_correlation\<close> depend on.
\<close>

record 'a ndarray =
  nrows :: nat
  ncols :: nat
  cell :: "nat \<Rightarrow> nat \<Rightarrow> 'a"

text \<open>\<open>np.array(rows)\<close> for a non-empty list of rows of one length.\<close>

definition array :: "'a list list \<Rightarrow> 'a ndarray" where
  "array rs =
     \<lparr>nrows = length rs,
      ncols = (case rs of [] \<Rightarrow> 0 | r # _ \<Rightarrow> length r),
      cell = (\<lambda>i j. rs ! i ! j)\<rparr>"

definition row :: "'a ndarray \<Rightarrow> nat \<Rightarrow> 'a list" where
  "row a i = map (\<lambda>j. cell a i j) [0..<ncols a]"

definition column :: "'a ndarray \<Rightarrow> nat \<Rightarrow> 'a list" where
  "column a j = map (\<lambda>i. cell a i j) [0..<nrows a]"

text \<open>
  The array of zeros with \<open>r\<close> rows and \<open>c\<close> columns, and \<open>np.zeros((r, c))\<close>, which
  raises ValueError on a negative dimension.
\<close>

definition zeros :: "nat \<Rightarrow> nat \<Rightarrow> real ndarray" where
  "zeros r c = \<lparr>nrows = r, ncols = c, cell = (\<lambda>i j. 0)\<rparr>"

definition np_zeros :: "int \<Rightarrow> int \<Rightarrow> error + real ndarray" where
  "np_zeros r c = (if r < 0 \<or> c < 0 then Inl ValueError else Inr (zeros (nat r) (nat c)))"

text \<open>
  \<open>a[:, lo:hi]\<close> for \<open>0 \<le> lo\<close> and \<open>0 \<le> hi\<close>: a slice is clipped to the array, it never
  raises.
\<close>

definition col_slice :: "'a ndarray \<Rightarrow> nat \<Rightarrow> nat \<Rightarrow> 'a ndarray" where
  "col_slice a lo hi =
     (let s = min lo (ncols a); e = min hi (ncols a)
      in \<lparr>nrows = nrows a, ncols = e - s, cell = (\<lambda>i j. cell a i (s + j))\<rparr>)"

text \<open>
  Broadcasting a source array into a target of shape \<open>(r, c)\<close>: every dimension of the
  source is the target's or is 1; a dimension of 1 is repeated.
\<close>

definition broadcastable :: "'a ndarray \<Rightarrow> nat \<Rightarrow> nat \<Rightarrow> bool" where
  "broadcastable s r c = ((nrows s = r \<or> nrows s = 1) \<and> (ncols s = c \<or> ncols s = 1))"

definition bcast :: "'a ndarray \<Rightarrow> nat \<Rightarrow> nat \<Rightarrow> 'a" where
  "bcast s i j = cell s (if nrows s = 1 then 0 else i) (if ncols s = 1 then 0 else j)"

definition transpose_arr :: "'a ndarray \<Rightarrow> 'a ndarray" where
  "transpose_arr a = \<lparr>nrows = ncols a, ncols = nrows a, cell = (\<lambda>i j. cell a j i)\<rparr>"

subsection \<open>Floating-point arithmetic and the library calls\<close>

text \<open>
  The operations whose result the notebook does not determine:
  \<^item> \<open>fadd\<close>, \<open>fsub\<close>, \<open>fdiv\<close>: float64 \<open>+\<close>, \<open>-\<close> and \<open>/\<close>, which round;
  \<^item> \<open>zscore_nan a i j\<close>: entry \<open>[i, j]\<close> of
    \<open>np.nan_to_num(stats.zscore(a, axis=0, ddof=1))\<close>, an array of the shape of \<open>a\<close>;
  \<^item> \<open>correlate x y i j\<close>: entry \<open>[i, j]\<close> of \<open>compute_correlation(x, y)\<close>
    (brainiak.fcma.util), a finite float32 number;
  \<^item> \<open>np_mean\<close>, \<open>np_std\<close>: \<open>np.mean\<close> and \<open>np.std\<close> of a vector.
\<close>

record lib =
  fadd :: "real \<Rightarrow> real \<Rightarrow> real"
  fsub :: "real \<Rightarrow> real \<Rightarrow> real"
  fdiv :: "real \<Rightarrow> real \<Rightarrow> real"
  zscore_nan :: "real ndarray \<Rightarrow> nat \<Rightarrow> nat \<Rightarrow> real"
  correlate :: "real ndarray \<Rightarrow> real ndarray \<Rightarrow> nat \<Rightarrow> nat \<Rightarrow> real"
  np_mean :: "real list \<Rightarrow> real"
  np_std :: "real list \<Rightarrow> real"

text \<open>\<open>a[lo:hi, :] += s\<close> and \<open>a[lo:hi, :] = s\<close>; ValueError when \<open>s\<close> does not broadcast.\<close>

definition iadd_rows :: "lib \<Rightarrow> real ndarray \<Rightarrow> nat \<Rightarrow> nat \<Rightarrow> real ndarray \<Rightarrow> error + real ndarray" where
  "iadd_rows L a lo hi s =
     (let lo' = min lo (nrows a); hi' = min hi (nrows a)
      in if broadcastable s (hi' - lo') (ncols a)
         then Inr (a\<lparr>cell := (\<lambda>i j. if lo' \<le> i \<and> i < hi'
                                      then fadd L (cell a i j) (bcast s (i - lo') j)
                                      else cell a i j)\<rparr>)
         else Inl ValueError)"

definition set_rows :: "real ndarray \<Rightarrow> nat \<Rightarrow> nat \<Rightarrow> real ndarray \<Rightarrow> error + real ndarray" where
  "set_rows a lo hi s =
     (let lo' = min lo (nrows a); hi' = min hi (nrows a)
      in if broadcastable s (hi' - lo') (ncols a)
         then Inr (a\<lparr>cell := (\<lambda>i j. if lo' \<le> i \<and> i < hi'
                                      then bcast s (i - lo') j
                                      else cell a i j)\<rparr>)
         else Inl ValueError)"

text \<open>\<open>a - b\<close> for two arrays of one shape.\<close>

definition subtract :: "lib \<Rightarrow> real ndarray \<Rightarrow> real ndarray \<Rightarrow> real ndarray" where
  "subtract L a b = a\<lparr>cell := (\<lambda>i j. fsub L (cell a i j) (cell b i j))\<rparr>"

text \<open>\<open>np.nan_to_num(stats.zscore(a, axis=0, ddof=1))\<close>: the shape is kept.\<close>

definition nan_to_num_zscore :: "lib \<Rightarrow> real ndarray \<Rightarrow> real ndarray" where
  "nan_to_num_zscore L a = a\<lparr>cell := zscore_nan L a\<rparr>"

text \<open>
  An entry of the correlation matrix: a finite number, or the \<open>-np.inf\<close> that the
  exclusion loop stores.
\<close>

datatype corrval = NegInf | Fin real

fun lt :: "corrval \<Rightarrow> corrval \<Rightarrow> bool" where
  "lt NegInf NegInf = False"
| "lt NegInf (Fin y) = True"
| "lt (Fin x) NegInf = False"
| "lt (Fin x) (Fin y) = (x < y)"

text \<open>
  \<open>compute_correlation(x, y)\<close>: one row of the result for every row of \<open>x\<close>, one column
  for every row of \<open>y\<close>. The routine reads entry \<open>[0, 0]\<close> of both operands, which
  raises IndexError when an operand has no row or no column.
\<close>

definition compute_correlation :: "lib \<Rightarrow> real ndarray \<Rightarrow> real ndarray \<Rightarrow> error + corrval ndarray" where
  "compute_correlation L x y =
     (if nrows x = 0 \<or> ncols x = 0 \<or> nrows y = 0 \<or> ncols y = 0 then Inl IndexError
      else Inr \<lparr>nrows = nrows x, ncols = nrows y, cell = (\<lambda>i j. Fin (correlate L x y i j))\<rparr>)"

subsection \<open>Loops that can raise\<close>

text \<open>A \<open>for\<close> loop over a list whose body may raise: the first error ends the loop.\<close>

fun foldE :: "('b \<Rightarrow> 'a \<Rightarrow> error + 'a) \<Rightarrow> 'b list \<Rightarrow> 'a \<Rightarrow> error + 'a" where
  "foldE f [] s = Inr s"
| "foldE f (x # xs) s = (case f x s of Inl e \<Rightarrow> Inl e | Inr s' \<Rightarrow> foldE f xs s')"

text \<open>
  \<open>np.argmax\<close> of one row: the scan keeps the first index of the largest entry.
  \<open>np.argmax(a, axis=1)\<close> raises ValueError when the rows are empty.
\<close>

fun argmax_scan :: "corrval list \<Rightarrow> nat \<Rightarrow> corrval \<Rightarrow> nat \<Rightarrow> nat" where
  "argmax_scan [] i mp idx = idx"
| "argmax_scan (x # xs) i mp idx =
     (if lt mp x then argmax_scan xs (Suc i) x i else argmax_scan xs (Suc i) mp idx)"

definition argmax_row :: "corrval list \<Rightarrow> nat" where
  "argmax_row xs = (case xs of [] \<Rightarrow> 0 | x # xs' \<Rightarrow> argmax_scan xs' 1 x 0)"

definition np_argmax_axis1 :: "corrval ndarray \<Rightarrow> error + nat list" where
  "np_argmax_axis1 a =
     (if ncols a = 0 then Inl ValueError
      else Inr (map (\<lambda>i. argmax_row (row a i)) [0..<nrows a]))"

subsection \<open>The function\<close>

text \<open>The two \<open>print\<close> statements, as the values they format.\<close>

datatype line = SubjLine nat real | SummaryLine real real

text \<open>
  \<open>trn_data[w*ndim:(w+1)*ndim,:] += data[m][:,w:(w+nseg)]\<close>, the loop
  \<open>for w in range(win_size)\<close> around it for one subject, and the loop over the
  subjects around that.
\<close>

definition add_window :: "lib \<Rightarrow> nat \<Rightarrow> nat \<Rightarrow> real ndarray \<Rightarrow> nat \<Rightarrow> real ndarray \<Rightarrow> error + real ndarray" where
  "add_window L ndim nseg d w trn_data =
     iadd_rows L trn_data (w * ndim) ((w + 1) * ndim) (col_slice d w (w + nseg))"

definition add_subject :: "lib \<Rightarrow> nat \<Rightarrow> nat \<Rightarrow> nat \<Rightarrow> real ndarray \<Rightarrow> real ndarray \<Rightarrow> error + real ndarray" where
  "add_subject L ndim win nseg d trn_data = foldE (add_window L ndim nseg d) [0..<win] trn_data"

definition build_trn :: "lib \<Rightarrow> nat \<Rightarrow> nat \<Rightarrow> nat \<Rightarrow> real ndarray list \<Rightarrow> real ndarray \<Rightarrow> error + real ndarray" where
  "build_trn L ndim win nseg data trn_data = foldE (add_subject L ndim win nseg) data trn_data"

text \<open>
  \<open>tst_data[w*ndim:(w+1)*ndim,:] = data[tst_subj][:,w:(w+nseg)]\<close> and the loop
  \<open>for w in range(win_size)\<close> around it.
\<close>

definition set_window :: "nat \<Rightarrow> nat \<Rightarrow> real ndarray \<Rightarrow> nat \<Rightarrow> real ndarray \<Rightarrow> error + real ndarray" where
  "set_window ndim nseg d w tst_data =
     set_rows tst_data (w * ndim) ((w + 1) * ndim) (col_slice d w (w + nseg))"

definition build_tst :: "nat \<Rightarrow> nat \<Rightarrow> nat \<Rightarrow> real ndarray \<Rightarrow> real ndarray \<Rightarrow> error + real ndarray" where
  "build_tst ndim win nseg d tst_data = foldE (set_window ndim nseg d) [0..<win] tst_data"

text \<open>
  The exclusion loop:
  \<open>for i in range(nseg): for j in range(nseg):
     if abs(i-j) < win_size and i != j: corr_mtx[i,j] = -np.inf\<close>.
  The matrix has \<open>nseg\<close> rows and columns, so the index is in range.
\<close>

definition mask_step :: "int \<Rightarrow> nat \<Rightarrow> nat \<Rightarrow> corrval ndarray \<Rightarrow> corrval ndarray" where
  "mask_step win_size i j corr_mtx =
     (if \<bar>int i - int j\<bar> < win_size \<and> i \<noteq> j
      then corr_mtx\<lparr>cell := (cell corr_mtx)(i := (cell corr_mtx i)(j := NegInf))\<rparr>
      else corr_mtx)"

definition mask_row :: "int \<Rightarrow> nat \<Rightarrow> nat \<Rightarrow> corrval ndarray \<Rightarrow> corrval ndarray" where
  "mask_row win_size nseg i corr_mtx = fold (mask_step win_size i) [0..<nseg] corr_mtx"

definition mask_overlap :: "int \<Rightarrow> nat \<Rightarrow> corrval ndarray \<Rightarrow> corrval ndarray" where
  "mask_overlap win_size nseg corr_mtx = fold (mask_row win_size nseg) [0..<nseg] corr_mtx"

text \<open>\<open>sum(max_idx == range(nseg))\<close>: the number of rows predicted as themselves.\<close>

definition hits :: "nat list \<Rightarrow> nat \<Rightarrow> nat" where
  "hits max_idx nseg = length (filter (\<lambda>p. max_idx ! p = p) [0..<nseg])"

text \<open>
  \<open>A\<close>, \<open>B\<close> and \<open>corr_mtx = compute_correlation(B.T, A.T)\<close>: the correlation matrix
  of one held-out subject, before the exclusion loop.
\<close>

definition corr_matrix :: "lib \<Rightarrow> real ndarray \<Rightarrow> real ndarray \<Rightarrow> error + corrval ndarray" where
  "corr_matrix L trn_data tst_data =
     (let A = nan_to_num_zscore L (subtract L trn_data tst_data);
          B = nan_to_num_zscore L tst_data
      in compute_correlation L (transpose_arr B) (transpose_arr A))"

text \<open>
  \<open>tst_data = np.zeros((ndim*win_size, nseg), order='f')\<close> and the loop that fills it:
  the segment matrix of one subject.
\<close>

definition segment_matrix :: "nat \<Rightarrow> int \<Rightarrow> int \<Rightarrow> real ndarray \<Rightarrow> error + real ndarray" where
  "segment_matrix ndim win_size nseg d =
     (case np_zeros (int ndim * win_size) nseg of
        Inl e \<Rightarrow> Inl e
      | Inr tst0 \<Rightarrow> build_tst ndim (nat win_size) (nat nseg) d tst0)"

text \<open>
  \<open>trn_data = np.zeros((ndim*win_size, nseg), order='f')\<close> and the loops that
  accumulate every subject into it: the group sum.
\<close>

definition group_sum :: "lib \<Rightarrow> nat \<Rightarrow> int \<Rightarrow> int \<Rightarrow> real ndarray list \<Rightarrow> error + real ndarray" where
  "group_sum L ndim win_size nseg data =
     (case np_zeros (int ndim * win_size) nseg of
        Inl e \<Rightarrow> Inl e
      | Inr trn0 \<Rightarrow> build_trn L ndim (nat win_size) (nat nseg) data trn0)"

text \<open>
  From the masked correlation matrix to the accuracy:
  \<open>max_idx = np.argmax(corr_mtx, axis=1)\<close> and
  \<open>sum(max_idx == range(nseg)) / nseg\<close>, a float64 division; the sum of an empty
  comparison is the Python integer 0, whose division by 0 raises.
\<close>

definition score :: "lib \<Rightarrow> corrval ndarray \<Rightarrow> int \<Rightarrow> error + real" where
  "score L corr_mtx nseg =
     (case np_argmax_axis1 corr_mtx of
        Inl e \<Rightarrow> Inl e
      | Inr max_idx \<Rightarrow>
          if nseg = 0 then Inl ZeroDivisionError
          else Inr (fdiv L (real (hits max_idx (nat nseg))) (real_of_int nseg)))"

text \<open>The body of the leave-one-out loop, up to the accuracy of the held-out subject.\<close>

definition analyze_subject ::
  "lib \<Rightarrow> real ndarray list \<Rightarrow> nat \<Rightarrow> int \<Rightarrow> int \<Rightarrow> real ndarray \<Rightarrow> nat \<Rightarrow> error + real" where
  "analyze_subject L data ndim win_size nseg trn_data tst_subj =
     (case segment_matrix ndim win_size nseg (data ! tst_subj) of
        Inl e \<Rightarrow> Inl e
      | Inr tst_data \<Rightarrow>
          (case corr_matrix L trn_data tst_data of
             Inl e \<Rightarrow> Inl e
           | Inr corr_mtx \<Rightarrow> score L (mask_overlap win_size (nat nseg) corr_mtx) nseg))"

definition subject_step ::
  "lib \<Rightarrow> real ndarray list \<Rightarrow> nat \<Rightarrow> int \<Rightarrow> int \<Rightarrow> real ndarray \<Rightarrow> nat \<Rightarrow>
   real list \<times> line list \<Rightarrow> error + real list \<times> line list" where
  "subject_step L data ndim win_size nseg trn_data tst_subj st =
     (case analyze_subject L data ndim win_size nseg trn_data tst_subj of
        Inl e \<Rightarrow> Inl e
      | Inr a \<Rightarrow> Inr ((fst st)[tst_subj := a], snd st @ [SubjLine tst_subj a]))"

text \<open>
  \<open>time_segment_matching(data, win_size)\<close>: the accuracy vector it returns and the
  lines it prints, or the exception it raises.
\<close>

definition time_segment_matching ::
  "lib \<Rightarrow> real ndarray list \<Rightarrow> int \<Rightarrow> error + real list \<times> line list" where
  "time_segment_matching L data win_size =
     (case data of
        [] \<Rightarrow> Inl IndexError
      | d0 # _ \<Rightarrow>
          (let nsubjs = length data;
               ndim = nrows d0;
               nsample = ncols d0;
               accuracy = replicate nsubjs (0::real);
               nseg = int nsample - win_size
           in case group_sum L ndim win_size nseg data of
                Inl e \<Rightarrow> Inl e
              | Inr trn_data \<Rightarrow>
                  (case foldE (subject_step L data ndim win_size nseg trn_data)
                          [0..<nsubjs] (accuracy, []) of
                     Inl e \<Rightarrow> Inl e
                   | Inr st \<Rightarrow>
                       Inr (fst st,
                            snd st @ [SummaryLine (np_mean L (fst st)) (np_std L (fst st))]))))"

subsection \<open>The library as the specification describes it\<close>

text \<open>
  Modelled from the spec: the normalization primitive of sections 4.3 (step 1) and 6,
  whose code (scipy's \<open>zscore\<close>, numpy's \<open>nan_to_num\<close>) is not part of the notebook.
  Every column is standardised to zero mean and unit sample variance (divisor
  \<open>n - 1\<close>); a column whose standardised values are not finite (fewer than two
  entries, or zero variance) is replaced with zeros.
\<close>

definition spec_zscore :: "real ndarray \<Rightarrow> nat \<Rightarrow> nat \<Rightarrow> real" where
  "spec_zscore a i j =
     (let col = column a j;
          n = length col;
          m = sum_list col / real n;
          s = sqrt (sum_list (map (\<lambda>x. (x - m)\<^sup>2) col) / (real n - 1))
      in if n < 2 then 0 else if s = 0 then 0 else (cell a i j - m) / s)"

text \<open>
  Modelled from the spec: the correlation primitive of section 6, whose code
  (brainiak's \<open>compute_correlation\<close>) is not part of the notebook. Entry \<open>[i, j]\<close> is
  the Pearson correlation of row \<open>i\<close> of \<open>x\<close> and row \<open>j\<close> of \<open>y\<close>; the correlation
  with a row of zero variance is 0.
\<close>

definition pearson :: "real list \<Rightarrow> real list \<Rightarrow> real" where
  "pearson x y =
     (let mx = sum_list x / real (length x);
          my = sum_list y / real (length y);
          sxx = sum_list (map (\<lambda>v. (v - mx)\<^sup>2) x);
          syy = sum_list (map (\<lambda>v. (v - my)\<^sup>2) y);
          sxy = sum_list (map2 (\<lambda>u v. (u - mx) * (v - my)) x y)
      in if sxx = 0 \<or> syy = 0 then 0 else sxy / sqrt (sxx * syy))"

definition spec_correlation :: "real ndarray \<Rightarrow> real ndarray \<Rightarrow> nat \<Rightarrow> nat \<Rightarrow> real" where
  "spec_correlation x y i j = pearson (row x i) (row y j)"

subsection \<open>Two instances of the arithmetic\<close>

text \<open>Arithmetic in the reals: no operation rounds.\<close>

definition exact :: lib where
  "exact =
     \<lparr>fadd = (\<lambda>a b. a + b), fsub = (\<lambda>a b. a - b), fdiv = (\<lambda>a b. a / b),
      zscore_nan = spec_zscore, correlate = spec_correlation,
      np_mean = (\<lambda>xs. sum_list xs / real (length xs)),
      np_std = (\<lambda>xs. sqrt (sum_list (map (\<lambda>x. (x - sum_list xs / real (length xs))\<^sup>2) xs)
                             / real (length xs)))\<rparr>"

text \<open>
  float64 arithmetic: the exact result of an operation is rounded to the nearest
  multiple of the unit in the last place of its binade, a tie going to the even
  multiple (\<open>rhe\<close>: round half to even). Overflow and subnormal numbers are not
  modelled. \<open>mean64\<close> adds the entries from left to right, as numpy does for a vector
  of fewer than eight entries.
\<close>

definition rhe :: "real \<Rightarrow> int" where
  "rhe y =
     (let f = \<lfloor>y\<rfloor>
      in if y - of_int f < 1/2 then f
         else if 1/2 < y - of_int f then f + 1
         else if even f then f else f + 1)"

definition ulp :: "real \<Rightarrow> real" where
  "ulp x = 2 powr (of_int \<lfloor>log 2 \<bar>x\<bar>\<rfloor> - 52)"

definition fl64 :: "real \<Rightarrow> real" where
  "fl64 x = (if x = 0 then 0 else of_int (rhe (x / ulp x)) * ulp x)"

definition mean64 :: "real list \<Rightarrow> real" where
  "mean64 xs = fl64 (foldl (\<lambda>s x. fl64 (s + x)) 0 xs / real (length xs))"

definition std64 :: "real list \<Rightarrow> real" where
  "std64 xs = fl64 (sqrt (mean64 (map (\<lambda>x. fl64 ((fl64 (x - mean64 xs))\<^sup>2)) xs)))"

definition float64 :: lib where
  "float64 =
     \<lparr>fadd = (\<lambda>a b. fl64 (a + b)), fsub = (\<lambda>a b. fl64 (a - b)), fdiv = (\<lambda>a b. fl64 (a / b)),
      zscore_nan = spec_zscore, correlate = spec_correlation,
      np_mean = mean64, np_std = std64\<rparr>"

text \<open>
  What the theorems on accuracies ask of the division: a quotient of \<open>0 \<le> a \<le> b\<close>
  lies in \<open>[0, 1]\<close>, and \<open>b / b\<close> is 1. Correctly rounded division has both properties.
\<close>

definition quotient_ok :: "(real \<Rightarrow> real \<Rightarrow> real) \<Rightarrow> bool" where
  "quotient_ok d = (\<forall>a b. 0 \<le> a \<and> a \<le> b \<and> 0 < b \<longrightarrow> 0 \<le> d a b \<and> d a b \<le> 1 \<and> d b b = 1)"

subsection \<open>Inputs and closed forms\<close>

text \<open>
  The inputs the specification calls valid: at least one subject, all subjects of the
  first one's shape, and \<open>0 < win_size < T\<close>.
\<close>

definition same_shape :: "real ndarray list \<Rightarrow> bool" where
  "same_shape data =
     list_all (\<lambda>d. nrows d = nrows (hd data) \<and> ncols d = ncols (hd data)) data"

definition valid_input :: "real ndarray list \<Rightarrow> int \<Rightarrow> bool" where
  "valid_input data win_size =
     (data \<noteq> [] \<and> same_shape data \<and> 0 < win_size \<and> win_size < int (ncols (hd data)))"

text \<open>
  What the code itself asks of a subject: for every window offset, the slice it reads
  broadcasts into the block of \<open>ndim\<close> rows and \<open>nseg\<close> columns it is written to.
\<close>

definition accepted :: "nat \<Rightarrow> nat \<Rightarrow> nat \<Rightarrow> real ndarray \<Rightarrow> bool" where
  "accepted ndim win nseg d =
     list_all (\<lambda>w. broadcastable (col_slice d w (w + nseg)) ndim nseg) [0..<win]"

text \<open>
  The entry that the window loops read for row \<open>i\<close> and column \<open>j\<close> of a segment
  matrix, and the arrays that the loops and \<open>compute_correlation\<close> produce when they
  do not raise (used in the proofs).
\<close>

definition window_rows :: "nat \<Rightarrow> nat \<Rightarrow> real ndarray \<Rightarrow> nat \<Rightarrow> nat \<Rightarrow> real" where
  "window_rows ndim nseg d i j =
     bcast (col_slice d (i div ndim) (i div ndim + nseg)) (i mod ndim) j"

definition seg_closed :: "nat \<Rightarrow> nat \<Rightarrow> nat \<Rightarrow> real ndarray \<Rightarrow> real ndarray" where
  "seg_closed ndim win nseg d =
     \<lparr>nrows = win * ndim, ncols = nseg,
      cell = (\<lambda>i j. if i < win * ndim then window_rows ndim nseg d i j else 0)\<rparr>"

definition sum_closed :: "lib \<Rightarrow> nat \<Rightarrow> nat \<Rightarrow> nat \<Rightarrow> real ndarray list \<Rightarrow> real ndarray" where
  "sum_closed L ndim win nseg data =
     \<lparr>nrows = win * ndim, ncols = nseg,
      cell = (\<lambda>i j. if i < win * ndim
                     then foldl (fadd L) 0 (map (\<lambda>d. window_rows ndim nseg d i j) data)
                     else 0)\<rparr>"

definition corr_closed :: "lib \<Rightarrow> real ndarray \<Rightarrow> real ndarray \<Rightarrow> corrval ndarray" where
  "corr_closed L trn tst =
     \<lparr>nrows = ncols tst, ncols = ncols trn,
      cell = (\<lambda>i j. Fin (correlate L (transpose_arr (nan_to_num_zscore L tst))
                        (transpose_arr (nan_to_num_zscore L (subtract L trn tst))) i j))\<rparr>"

text \<open>The accuracy that the loop body stores for one held-out subject (used in the proofs).\<close>

definition subject_accuracy :: "lib \<Rightarrow> int \<Rightarrow> int \<Rightarrow> real ndarray \<Rightarrow> real ndarray \<Rightarrow> real" where
  "subject_accuracy L win_size nseg trn tst =
     fdiv L
       (real (length (filter
          (\<lambda>p. argmax_row (row (mask_overlap win_size (nat nseg) (corr_closed L trn tst)) p) = p)
          [0..<nat nseg])))
       (real_of_int nseg)"

text \<open>
  The accuracy vector of a run that does not fail, and the lines printed for an accuracy
  vector (used in the proofs).
\<close>

definition accuracies :: "lib \<Rightarrow> nat \<Rightarrow> int \<Rightarrow> int \<Rightarrow> real ndarray list \<Rightarrow> real list" where
  "accuracies L D w n data =
     map (\<lambda>i. subject_accuracy L w n (sum_closed L D (nat w) (nat n) data)
                  (seg_closed D (nat w) (nat n) (data ! i))) [0..<length data]"

definition report :: "lib \<Rightarrow> real list \<Rightarrow> line list" where
  "report L acc =
     map (\<lambda>i. SubjLine i (acc ! i)) [0..<length acc] @ [SummaryLine (np_mean L acc) (np_std L acc)]"

text \<open>\<open>k\<close> is the first index at which the row \<open>xs\<close> is largest.\<close>

definition is_first_argmax :: "corrval list \<Rightarrow> nat \<Rightarrow> bool" where
  "is_first_argmax xs k =
     (k < length xs \<and> (\<forall>j<length xs. \<not> lt (xs ! k) (xs ! j)) \<and> (\<forall>j<k. lt (xs ! j) (xs ! k)))"

text \<open>Concrete inputs on which the model is run below.\<close>

definition ex_data :: "real ndarray list" where
  "ex_data = [array [[1, 2, 3]], array [[4, 5, 6]]]"

definition ex_longer :: "real ndarray list" where
  "ex_longer = [array [[1, 2, 3]], array [[1, 2, 3, 4]]]"

definition ex_rows :: "real ndarray list" where
  "ex_rows = [array [[1, 2, 3]], array [[1, 2, 3], [4, 5, 6]]]"

definition ex_short :: "real ndarray list" where
  "ex_short = [array [[1, 2]]]"

definition ex_const :: "real ndarray list" where
  "ex_const = [array [[7, 1, 2], [7, 3, 5]], array [[4, 5, 6], [4, 1, 3]]]"

definition ex_big :: "real ndarray list" where
  "ex_big = [array [[10000000000000000, 0, 0]], array [[1, 2, 0]]]"


definition ex_four :: "real ndarray list" where
  "ex_four = [array [[1, 2, 3, 4]], array [[4, 3, 2, 1]]]"

definition ex_nofeat :: "real ndarray list" where
  "ex_nofeat = [zeros 0 3]"

section \<open>Auxiliary lemmas\<close>

subsection \<open>The window loops\<close>

lemma foldE_append:
  "foldE f (xs @ ys) s = (case foldE f xs s of Inl e \<Rightarrow> Inl e | Inr s' \<Rightarrow> foldE f ys s')"
  by (induction xs arbitrary: s) (auto split: sum.splits)

lemma block_index:
  assumes "k * n \<le> i" "i < Suc k * n"
  shows "i div n = k" "i mod n = i - k * n"
proof -
  from assms have n: "0 < n" by (cases n) auto
  from assms have "i - k * n < n" by simp
  moreover have "i = (i - k * n) + k * n" using assms by simp
  ultimately show "i div n = k"
    by (metis div_mult_self1 div_less add.commute add_0 n nat_neq_iff)
  then show "i mod n = i - k * n"
    by (metis minus_mult_div_eq_mod mult.commute)
qed

lemma add_window_closed:
  assumes "k < win" "nrows t = win * ndim" "ncols t = nseg"
    and "broadcastable (col_slice d k (k + nseg)) ndim nseg"
  shows "add_window L ndim nseg d k t =
    Inr (t\<lparr>cell := (\<lambda>i j. if k * ndim \<le> i \<and> i < Suc k * ndim
                           then fadd L (cell t i j) (window_rows ndim nseg d i j)
                           else cell t i j)\<rparr>)"
proof -
  have le: "Suc k * ndim \<le> win * ndim"
    using mult_le_mono1[of "Suc k" win ndim] assms(1) by simp
  then have m: "min (k * ndim) (win * ndim) = k * ndim"
    "min (ndim + k * ndim) (win * ndim) = ndim + k * ndim"
    by simp_all
  have "(\<lambda>i j. if k * ndim \<le> i \<and> i < ndim + k * ndim
                then fadd L (cell t i j) (bcast (col_slice d k (k + nseg)) (i - k * ndim) j)
                else cell t i j)
      = (\<lambda>i j. if k * ndim \<le> i \<and> i < ndim + k * ndim
                then fadd L (cell t i j) (window_rows ndim nseg d i j) else cell t i j)"
    using block_index[of k ndim] by (auto simp: fun_eq_iff window_rows_def)
  then show ?thesis
    using assms(2-4) m by (simp add: add_window_def iadd_rows_def Let_def)
qed

lemma set_window_closed:
  assumes "k < win" "nrows t = win * ndim" "ncols t = nseg"
    and "broadcastable (col_slice d k (k + nseg)) ndim nseg"
  shows "set_window ndim nseg d k t =
    Inr (t\<lparr>cell := (\<lambda>i j. if k * ndim \<le> i \<and> i < Suc k * ndim
                           then window_rows ndim nseg d i j else cell t i j)\<rparr>)"
proof -
  have le: "Suc k * ndim \<le> win * ndim"
    using mult_le_mono1[of "Suc k" win ndim] assms(1) by simp
  then have m: "min (k * ndim) (win * ndim) = k * ndim"
    "min (ndim + k * ndim) (win * ndim) = ndim + k * ndim"
    by simp_all
  have "(\<lambda>i j. if k * ndim \<le> i \<and> i < ndim + k * ndim
                then bcast (col_slice d k (k + nseg)) (i - k * ndim) j else cell t i j)
      = (\<lambda>i j. if k * ndim \<le> i \<and> i < ndim + k * ndim
                then window_rows ndim nseg d i j else cell t i j)"
    using block_index[of k ndim] by (auto simp: fun_eq_iff window_rows_def)
  then show ?thesis
    using assms(2-4) m by (simp add: set_window_def set_rows_def Let_def)
qed

lemma add_subject_upto:
  assumes "k \<le> win" "nrows a = win * ndim" "ncols a = nseg"
    and "\<forall>w<k. broadcastable (col_slice d w (w + nseg)) ndim nseg"
  shows "foldE (add_window L ndim nseg d) [0..<k] a
         = Inr (a\<lparr>cell := (\<lambda>i j. if i < k * ndim
                                  then fadd L (cell a i j) (window_rows ndim nseg d i j)
                                  else cell a i j)\<rparr>)"
  using assms
proof (induction k)
  case 0
  then show ?case by simp
next
  case (Suc k)
  let ?t = "a\<lparr>cell := (\<lambda>i j. if i < k * ndim
                                  then fadd L (cell a i j) (window_rows ndim nseg d i j)
                                  else cell a i j)\<rparr>"
  have ih: "foldE (add_window L ndim nseg d) [0..<k] a = Inr ?t"
    using Suc by simp
  have st: "add_window L ndim nseg d k ?t =
    Inr (?t\<lparr>cell := (\<lambda>i j. if k * ndim \<le> i \<and> i < Suc k * ndim
                           then fadd L (cell ?t i j) (window_rows ndim nseg d i j)
                           else cell ?t i j)\<rparr>)"
    using Suc.prems by (intro add_window_closed[where win = win]) simp_all
  show ?case
    by (simp add: foldE_append ih st) (auto simp: fun_eq_iff)
qed

lemma build_tst_upto:
  assumes "k \<le> win" "nrows a = win * ndim" "ncols a = nseg"
    and "\<forall>w<k. broadcastable (col_slice d w (w + nseg)) ndim nseg"
  shows "foldE (set_window ndim nseg d) [0..<k] a
         = Inr (a\<lparr>cell := (\<lambda>i j. if i < k * ndim then window_rows ndim nseg d i j
                                  else cell a i j)\<rparr>)"
  using assms
proof (induction k)
  case 0
  then show ?case by simp
next
  case (Suc k)
  let ?t = "a\<lparr>cell := (\<lambda>i j. if i < k * ndim then window_rows ndim nseg d i j
                                  else cell a i j)\<rparr>"
  have ih: "foldE (set_window ndim nseg d) [0..<k] a = Inr ?t"
    using Suc by simp
  have st: "set_window ndim nseg d k ?t =
    Inr (?t\<lparr>cell := (\<lambda>i j. if k * ndim \<le> i \<and> i < Suc k * ndim
                           then window_rows ndim nseg d i j else cell ?t i j)\<rparr>)"
    using Suc.prems by (intro set_window_closed[where win = win]) simp_all
  show ?case
    by (simp add: foldE_append ih st) (auto simp: fun_eq_iff)
qed

lemma accepted_iff:
  "accepted ndim win nseg d = (\<forall>w<win. broadcastable (col_slice d w (w + nseg)) ndim nseg)"
  by (auto simp: accepted_def list_all_iff)

lemma add_subject_closed:
  assumes "accepted ndim win nseg d" "nrows a = win * ndim" "ncols a = nseg"
  shows "add_subject L ndim win nseg d a =
     Inr (a\<lparr>cell := (\<lambda>i j. if i < win * ndim
                            then fadd L (cell a i j) (window_rows ndim nseg d i j)
                            else cell a i j)\<rparr>)"
  using add_subject_upto[of win win a ndim nseg d L] assms
  by (simp add: add_subject_def accepted_iff)

lemma build_tst_closed:
  assumes "accepted ndim win nseg d" "nrows a = win * ndim" "ncols a = nseg"
  shows "build_tst ndim win nseg d a =
     Inr (a\<lparr>cell := (\<lambda>i j. if i < win * ndim then window_rows ndim nseg d i j
                            else cell a i j)\<rparr>)"
  using build_tst_upto[of win win a ndim nseg d] assms
  by (simp add: build_tst_def accepted_iff)

lemma add_window_fail:
  assumes "k < win" "nrows t = win * ndim" "ncols t = nseg"
    and "\<not> broadcastable (col_slice d k (k + nseg)) ndim nseg"
  shows "add_window L ndim nseg d k t = Inl ValueError"
proof -
  have le: "Suc k * ndim \<le> win * ndim"
    using mult_le_mono1[of "Suc k" win ndim] assms(1) by simp
  then have m: "min (k * ndim) (win * ndim) = k * ndim"
    "min (ndim + k * ndim) (win * ndim) = ndim + k * ndim"
    by simp_all
  show ?thesis
    using assms(2-4) m by (simp add: add_window_def iadd_rows_def Let_def)
qed

lemma add_subject_fail:
  assumes "\<not> accepted ndim win nseg d" "nrows a = win * ndim" "ncols a = nseg"
  shows "add_subject L ndim win nseg d a = Inl ValueError"
proof -
  define P where "P w = (w < win \<and> \<not> broadcastable (col_slice d w (w + nseg)) ndim nseg)" for w
  from assms(1) have "\<exists>w. P w" by (auto simp: accepted_iff P_def)
  then obtain k where k: "P k" "\<forall>w<k. \<not> P w"
    using exists_least_iff[of P] by auto
  then have kw: "k < win" and nb: "\<not> broadcastable (col_slice d k (k + nseg)) ndim nseg"
    and before: "\<forall>w<k. broadcastable (col_slice d w (w + nseg)) ndim nseg"
    by (auto simp: P_def)
  have split: "[0..<win] = [0..<k] @ k # [Suc k..<win]"
    using kw by (metis le_add1 less_imp_le_nat upt_add_eq_append upt_conv_Cons plus_nat.add_0 le_Suc_ex)
  let ?t = "a\<lparr>cell := (\<lambda>i j. if i < k * ndim
                                  then fadd L (cell a i j) (window_rows ndim nseg d i j)
                                  else cell a i j)\<rparr>"
  have pre: "foldE (add_window L ndim nseg d) [0..<k] a = Inr ?t"
    using add_subject_upto[of k win a ndim nseg d L] kw before assms(2,3) by simp
  have "add_window L ndim nseg d k ?t = Inl ValueError"
    using kw nb assms(2,3) by (intro add_window_fail[where win = win]) simp_all
  then show ?thesis
    by (simp add: add_subject_def split foldE_append pre)
qed

lemma build_trn_closed:
  assumes "\<forall>d\<in>set data. accepted ndim win nseg d" "nrows a = win * ndim" "ncols a = nseg"
  shows "build_trn L ndim win nseg data a =
     Inr (a\<lparr>cell := (\<lambda>i j. if i < win * ndim
                            then foldl (fadd L) (cell a i j)
                                   (map (\<lambda>d. window_rows ndim nseg d i j) data)
                            else cell a i j)\<rparr>)"
  using assms unfolding build_trn_def
proof (induction data arbitrary: a)
  case Nil
  then show ?case by (simp cong: if_cong)
next
  case (Cons d ds)
  let ?a = "a\<lparr>cell := (\<lambda>i j. if i < win * ndim
                            then fadd L (cell a i j) (window_rows ndim nseg d i j)
                            else cell a i j)\<rparr>"
  have 1: "add_subject L ndim win nseg d a = Inr ?a"
    using Cons.prems by (intro add_subject_closed) simp_all
  have 2: "foldE (add_subject L ndim win nseg) ds ?a =
     Inr (?a\<lparr>cell := (\<lambda>i j. if i < win * ndim
                            then foldl (fadd L) (cell ?a i j)
                                   (map (\<lambda>d. window_rows ndim nseg d i j) ds)
                            else cell ?a i j)\<rparr>)"
    using Cons.prems by (intro Cons.IH) simp_all
  show ?case
    by (simp add: 1 2) (auto simp: fun_eq_iff)
qed

lemma build_trn_fail:
  assumes "\<exists>d\<in>set data. \<not> accepted ndim win nseg d" "nrows a = win * ndim" "ncols a = nseg"
  shows "build_trn L ndim win nseg data a = Inl ValueError"
  using assms unfolding build_trn_def
proof (induction data arbitrary: a)
  case Nil
  then show ?case by simp
next
  case (Cons d ds)
  show ?case
  proof (cases "accepted ndim win nseg d")
    case True
    let ?a = "a\<lparr>cell := (\<lambda>i j. if i < win * ndim
                            then fadd L (cell a i j) (window_rows ndim nseg d i j)
                            else cell a i j)\<rparr>"
    have 1: "add_subject L ndim win nseg d a = Inr ?a"
      using Cons.prems True by (intro add_subject_closed) simp_all
    have "foldE (add_subject L ndim win nseg) ds ?a = Inl ValueError"
      using Cons.prems True by (intro Cons.IH) auto
    then show ?thesis by (simp add: 1)
  next
    case False
    then show ?thesis
      using Cons.prems by (simp add: add_subject_fail)
  qed
qed

lemma nat_dim: "0 \<le> int D * w \<Longrightarrow> nat (int D * w) = nat w * D"
  by (cases "0 \<le> w") (auto simp: nat_mult_distrib zero_le_mult_iff)

lemma segment_matrix_cases:
  "segment_matrix D w n d =
     (if int D * w < 0 \<or> n < 0 then Inl ValueError
      else build_tst D (nat w) (nat n) d (zeros (nat w * D) (nat n)))"
  by (simp add: segment_matrix_def np_zeros_def nat_dim)

lemma segment_matrix_closed:
  assumes "0 \<le> int D * w" "0 \<le> n" "accepted D (nat w) (nat n) d"
  shows "segment_matrix D w n d = Inr (seg_closed D (nat w) (nat n) d)"
  using assms
  by (simp add: segment_matrix_cases build_tst_closed seg_closed_def zeros_def
      not_less[symmetric] cong: if_cong)

lemma group_sum_cases:
  "group_sum L D w n data =
     (if int D * w < 0 \<or> n < 0 then Inl ValueError
      else if \<forall>d\<in>set data. accepted D (nat w) (nat n) d
           then Inr (sum_closed L D (nat w) (nat n) data)
           else Inl ValueError)"
proof -
  have z: "\<not> (int D * w < 0 \<or> n < 0) \<Longrightarrow>
       np_zeros (int D * w) n = Inr (zeros (nat w * D) (nat n))"
    by (simp add: np_zeros_def nat_dim)
  show ?thesis
  proof (cases "int D * w < 0 \<or> n < 0")
    case True
    then show ?thesis by (auto simp: group_sum_def np_zeros_def)
  next
    case False
    show ?thesis
    proof (cases "\<forall>d\<in>set data. accepted D (nat w) (nat n) d")
      case True
      then have "build_trn L D (nat w) (nat n) data (zeros (nat w * D) (nat n)) =
                 Inr (sum_closed L D (nat w) (nat n) data)"
        by (simp add: build_trn_closed sum_closed_def zeros_def cong: if_cong)
      then show ?thesis
        using False True z by (simp add: group_sum_def)
    next
      case F2: False
      then have "\<exists>d\<in>set data. \<not> accepted D (nat w) (nat n) d" by simp
      then have "build_trn L D (nat w) (nat n) data (zeros (nat w * D) (nat n)) = Inl ValueError"
        by (intro build_trn_fail) (simp_all add: zeros_def)
      then show ?thesis
        using False F2 z by (simp add: group_sum_def)
    qed
  qed
qed

lemma group_sum_Inr:
  assumes "group_sum L D w n data = Inr trn"
  shows "0 \<le> int D * w" "0 \<le> n" "\<forall>d\<in>set data. accepted D (nat w) (nat n) d"
    "trn = sum_closed L D (nat w) (nat n) data"
  using assms by (auto simp: group_sum_cases split: if_splits)

subsection \<open>The exclusion loop, the scan and the whole function\<close>

lemma mask_step_shape [simp]:
  "nrows (mask_step w i j m) = nrows m" "ncols (mask_step w i j m) = ncols m"
  by (simp_all add: mask_step_def)

lemma mask_step_cell:
  "cell (mask_step w i j m) p q =
     (if p = i \<and> q = j \<and> \<bar>int i - int j\<bar> < w \<and> i \<noteq> j then NegInf else cell m p q)"
  by (simp add: mask_step_def)

lemma mask_row_upto:
  "nrows (fold (mask_step w i) [0..<k] m) = nrows m \<and>
   ncols (fold (mask_step w i) [0..<k] m) = ncols m \<and>
   cell (fold (mask_step w i) [0..<k] m) p q =
     (if p = i \<and> q < k \<and> \<bar>int p - int q\<bar> < w \<and> p \<noteq> q then NegInf else cell m p q)"
  by (induction k) (auto simp: mask_step_cell less_Suc_eq)

lemma mask_row_cell:
  "cell (mask_row w n i m) p q =
     (if p = i \<and> q < n \<and> \<bar>int p - int q\<bar> < w \<and> p \<noteq> q then NegInf else cell m p q)"
  using mask_row_upto[of w i n m p q] by (simp add: mask_row_def)

lemma mask_row_shape [simp]:
  "nrows (mask_row w n i m) = nrows m" "ncols (mask_row w n i m) = ncols m"
  using mask_row_upto[of w i n m 0 0] by (simp_all add: mask_row_def)

lemma mask_overlap_upto:
  "nrows (fold (mask_row w n) [0..<k] m) = nrows m \<and>
   ncols (fold (mask_row w n) [0..<k] m) = ncols m \<and>
   cell (fold (mask_row w n) [0..<k] m) p q =
     (if p < k \<and> q < n \<and> \<bar>int p - int q\<bar> < w \<and> p \<noteq> q then NegInf else cell m p q)"
  by (induction k) (auto simp: mask_row_cell less_Suc_eq)

lemma mask_overlap_cell:
  "cell (mask_overlap w n m) p q =
     (if p < n \<and> q < n \<and> \<bar>int p - int q\<bar> < w \<and> p \<noteq> q then NegInf else cell m p q)"
  using mask_overlap_upto[of w n n m p q] by (simp add: mask_overlap_def)

lemma mask_overlap_shape [simp]:
  "nrows (mask_overlap w n m) = nrows m" "ncols (mask_overlap w n m) = ncols m"
  using mask_overlap_upto[of w n n m 0 0] by (simp_all add: mask_overlap_def)

lemma lt_irrefl [simp]: "\<not> lt a a"
  by (cases a) auto

lemma lt_trans: "lt a b \<Longrightarrow> lt b c \<Longrightarrow> lt a c"
  by (cases a; cases b; cases c) auto

lemma lt_le_trans: "\<not> lt a b \<Longrightarrow> lt a c \<Longrightarrow> lt b c"
  by (cases a; cases b; cases c) auto

lemma argmax_scan_first:
  assumes "idx < length pre" "i = length pre" "mp = pre ! idx"
    and "\<forall>j<length pre. \<not> lt mp (pre ! j)" "\<forall>j<idx. lt (pre ! j) mp"
  shows "is_first_argmax (pre @ xs) (argmax_scan xs i mp idx)"
  using assms
proof (induction xs arbitrary: pre i mp idx)
  case Nil
  then show ?case by (simp add: is_first_argmax_def)
next
  case (Cons x xs)
  show ?case
  proof (cases "lt mp x")
    case True
    have "is_first_argmax ((pre @ [x]) @ xs) (argmax_scan xs (Suc i) x i)"
    proof (rule Cons.IH)
      show "\<forall>j<length (pre @ [x]). \<not> lt x ((pre @ [x]) ! j)"
        using Cons.prems(4) True by (auto simp: nth_append less_Suc_eq dest: lt_trans)
      show "\<forall>j<i. lt ((pre @ [x]) ! j) x"
        using Cons.prems(2,4) True by (auto simp: nth_append intro: lt_le_trans)
    qed (use Cons.prems in auto)
    then show ?thesis using True by simp
  next
    case False
    have "is_first_argmax ((pre @ [x]) @ xs) (argmax_scan xs (Suc i) mp idx)"
    proof (rule Cons.IH)
      show "\<forall>j<length (pre @ [x]). \<not> lt mp ((pre @ [x]) ! j)"
        using Cons.prems(4) False by (auto simp: nth_append less_Suc_eq)
      show "\<forall>j<idx. lt ((pre @ [x]) ! j) mp"
        using Cons.prems(1,5) by (auto simp: nth_append)
    qed (use Cons.prems in \<open>auto simp: nth_append\<close>)
    then show ?thesis using False by simp
  qed
qed

lemma argmax_row_first: "xs \<noteq> [] \<Longrightarrow> is_first_argmax xs (argmax_row xs)"
proof (cases xs)
  case Nil
  then show "xs \<noteq> [] \<Longrightarrow> ?thesis" by simp
next
  case (Cons x xs')
  show ?thesis
    using argmax_scan_first[of 0 "[x]" 1 x xs'] Cons by (simp add: argmax_row_def)
qed

lemma first_argmax_unique:
  "is_first_argmax xs k \<Longrightarrow> is_first_argmax xs k' \<Longrightarrow> k = k'"
  unfolding is_first_argmax_def by (metis nat_neq_iff)

lemma subject_loop:
  assumes "\<forall>i<n. analyze_subject L data D w ns trn i = Inr (f i)" "n \<le> length acc0"
  shows "foldE (subject_step L data D w ns trn) [0..<n] (acc0, out0) =
     Inr (map f [0..<n] @ drop n acc0, out0 @ map (\<lambda>i. SubjLine i (f i)) [0..<n])"
  using assms
proof (induction n)
  case 0
  then show ?case by simp
next
  case (Suc n)
  have "(map f [0..<n] @ drop n acc0)[n := f n] = map f [0..<n] @ f n # drop (Suc n) acc0"
    using Suc.prems(2) by (simp add: list_update_append Cons_nth_drop_Suc[symmetric])
  then show ?case
    using Suc by (simp add: foldE_append subject_step_def)
qed

lemma hits_map: "hits (map g [0..<k]) k = length (filter (\<lambda>p. g p = p) [0..<k])"
  unfolding hits_def by (rule arg_cong[where f = length], rule filter_cong) auto

lemma corr_matrix_cases:
  "corr_matrix L trn tst =
     (if ncols tst = 0 \<or> nrows tst = 0 \<or> ncols trn = 0 \<or> nrows trn = 0 then Inl IndexError
      else Inr (corr_closed L trn tst))"
  by (simp add: corr_matrix_def compute_correlation_def transpose_arr_def
      nan_to_num_zscore_def subtract_def corr_closed_def Let_def)

lemma corr_closed_shape [simp]:
  "nrows (corr_closed L trn tst) = ncols tst"
  "ncols (corr_closed L trn tst) = ncols trn"
  by (simp_all add: corr_closed_def)

lemma corr_closed_cell: "\<exists>c. cell (corr_closed L trn tst) p q = Fin c"
  by (simp add: corr_closed_def)

lemma corr_matrix_Inr:
  assumes "corr_matrix L trn tst = Inr cm"
  shows "cm = corr_closed L trn tst" "0 < ncols tst" "0 < nrows tst" "0 < ncols trn" "0 < nrows trn"
  using assms by (auto simp: corr_matrix_cases split: if_splits)

lemma score_ok:
  assumes "nrows M = nat n" "ncols M = nat n" "0 < n"
  shows "score L M n =
     Inr (fdiv L (real (length (filter (\<lambda>p. argmax_row (row M p) = p) [0..<nat n])))
            (real_of_int n))"
  using assms by (simp add: score_def np_argmax_axis1_def hits_map)

lemma analyze_subject_ok:
  assumes "segment_matrix D w n (data ! i) = Inr tst"
    and "ncols tst = nat n" "ncols trn = nat n" "0 < n" "0 < nrows tst" "0 < nrows trn"
  shows "analyze_subject L data D w n trn i = Inr (subject_accuracy L w n trn tst)"
  using assms by (simp add: analyze_subject_def corr_matrix_cases score_ok subject_accuracy_def)

lemma analyze_subject_empty:
  assumes "segment_matrix D w n (data ! i) = Inr tst"
    and "ncols tst = 0 \<or> nrows tst = 0 \<or> ncols trn = 0 \<or> nrows trn = 0"
  shows "analyze_subject L data D w n trn i = Inl IndexError"
  using assms by (simp add: analyze_subject_def corr_matrix_cases)

lemma sum_list_nth: "sum_list (map f xs) = (\<Sum>k<length xs. f (xs ! k))"
  by (induction xs rule: rev_induct) (simp_all add: nth_append)

lemma foldl_plus: "foldl (+) a xs = a + sum_list xs" for a :: real
  by (induction xs arbitrary: a) simp_all

lemma map_index: "map f xs = map (\<lambda>k. f (xs ! k)) [0..<length xs]"
  by (rule nth_equalityI) simp_all

lemma tsm_unfold:
  "data \<noteq> [] \<Longrightarrow> time_segment_matching L data w =
     (case group_sum L (nrows (hd data)) w (int (ncols (hd data)) - w) data of
        Inl e \<Rightarrow> Inl e
      | Inr trn_data \<Rightarrow>
         (case foldE (subject_step L data (nrows (hd data)) w (int (ncols (hd data)) - w) trn_data)
                  [0..<length data] (replicate (length data) 0, []) of
            Inl e \<Rightarrow> Inl e
          | Inr st \<Rightarrow> Inr (fst st, snd st @ [SummaryLine (np_mean L (fst st)) (np_std L (fst st))])))"
  by (cases data) (simp_all add: time_segment_matching_def Let_def cong: sum.case_cong)

lemma tsm_group_sum_fail:
  assumes "data \<noteq> []" "group_sum L (nrows (hd data)) w (int (ncols (hd data)) - w) data = Inl e"
  shows "time_segment_matching L data w = Inl e"
  using assms by (simp add: tsm_unfold)

lemma run_ok:
  assumes "data \<noteq> []" "D = nrows (hd data)" "n = int (ncols (hd data)) - w" "0 < w" "0 < n"
    and "0 < D" "\<forall>d\<in>set data. accepted D (nat w) (nat n) d"
  shows "time_segment_matching L data w =
     Inr (accuracies L D w n data, report L (accuracies L D w n data))"
proof -
  define f where "f = (\<lambda>i. subject_accuracy L w n (sum_closed L D (nat w) (nat n) data)
                  (seg_closed D (nat w) (nat n) (data ! i)))"
  define N where "N = length data"
  have acc: "accuracies L D w n data = map f [0..<N]"
    by (simp add: accuracies_def f_def N_def)
  have gs: "group_sum L D w n data = Inr (sum_closed L D (nat w) (nat n) data)"
    using assms by (simp add: group_sum_cases not_less[symmetric] mult_less_0_iff)
  have an: "\<forall>i<N. analyze_subject L data D w n (sum_closed L D (nat w) (nat n) data) i = Inr (f i)"
  proof (intro allI impI)
    fix i assume "i < N"
    then have "accepted D (nat w) (nat n) (data ! i)" using assms(7) by (simp add: N_def)
    then have "segment_matrix D w n (data ! i) = Inr (seg_closed D (nat w) (nat n) (data ! i))"
      using assms(4,5) by (intro segment_matrix_closed) simp_all
    then show "analyze_subject L data D w n (sum_closed L D (nat w) (nat n) data) i = Inr (f i)"
      using assms(4,5,6) unfolding f_def
      by (intro analyze_subject_ok) (simp_all add: seg_closed_def sum_closed_def)
  qed
  have loop: "foldE (subject_step L data D w n (sum_closed L D (nat w) (nat n) data))
       [0..<N] (replicate N 0, []) =
     Inr (map f [0..<N], map (\<lambda>i. SubjLine i (f i)) [0..<N])"
    using subject_loop[OF an, of "replicate N 0" "[]"] by simp
  have eq: "map (\<lambda>i. SubjLine i (map f [0..<N] ! i)) [0..<N] = map (\<lambda>i. SubjLine i (f i)) [0..<N]"
    by (rule map_cong) simp_all
  have rep: "report L (map f [0..<N]) =
     map (\<lambda>i. SubjLine i (f i)) [0..<N] @
       [SummaryLine (np_mean L (map f [0..<N])) (np_std L (map f [0..<N]))]"
    unfolding report_def by (simp add: eq)
  have "time_segment_matching L data w = Inr (map f [0..<N], report L (map f [0..<N]))"
    unfolding rep using assms(1)
    by (simp add: tsm_unfold assms(2,3)[symmetric] N_def[symmetric] gs loop)
  then show ?thesis by (simp only: acc)
qed

lemma run_empty:
  assumes "data \<noteq> []" "D = nrows (hd data)" "n = int (ncols (hd data)) - w"
    and "0 \<le> int D * w" "0 \<le> n" "\<forall>d\<in>set data. accepted D (nat w) (nat n) d"
    and "nat w * D = 0 \<or> nat n = 0"
  shows "time_segment_matching L data w = Inl IndexError"
proof -
  let ?trn = "sum_closed L D (nat w) (nat n) data"
  have gs: "group_sum L D w n data = Inr ?trn"
    using assms(4,5,6) by (simp add: group_sum_cases not_less[symmetric])
  have "accepted D (nat w) (nat n) (data ! 0)" using assms(1,6) by simp
  then have seg: "segment_matrix D w n (data ! 0) = Inr (seg_closed D (nat w) (nat n) (data ! 0))"
    using assms(4,5) by (intro segment_matrix_closed) simp_all
  have "analyze_subject L data D w n ?trn 0 = Inl IndexError"
    using seg assms(7) by (intro analyze_subject_empty) (auto simp: seg_closed_def)
  then have step: "subject_step L data D w n ?trn 0 st = Inl IndexError" for st
    by (simp add: subject_step_def)
  have "[0..<length data] = 0 # [1..<length data]"
    using assms(1) by (simp add: upt_conv_Cons)
  then have "foldE (subject_step L data D w n ?trn) [0..<length data] st = Inl IndexError" for st
    using step by simp
  then show ?thesis
    using assms(1) by (simp add: tsm_unfold assms(2,3)[symmetric] gs)
qed

lemma tsm_cases:
  assumes "data \<noteq> []" "D = nrows (hd data)" "n = int (ncols (hd data)) - w"
  shows "time_segment_matching L data w =
     (if int D * w < 0 \<or> n < 0 then Inl ValueError
      else if \<not> (\<forall>d\<in>set data. accepted D (nat w) (nat n) d) then Inl ValueError
      else if nat w * D = 0 \<or> nat n = 0 then Inl IndexError
      else Inr (accuracies L D w n data, report L (accuracies L D w n data)))"
proof (cases "int D * w < 0 \<or> n < 0")
  case True
  then have "group_sum L D w n data = Inl ValueError" by (simp add: group_sum_cases)
  then have "time_segment_matching L data w = Inl ValueError"
    using assms(1) unfolding assms(2,3) by (rule tsm_group_sum_fail[rotated])
  then show ?thesis using True by simp
next
  case ok: False
  show ?thesis
  proof (cases "\<forall>d\<in>set data. accepted D (nat w) (nat n) d")
    case False
    then have "group_sum L D w n data = Inl ValueError"
      unfolding group_sum_cases using ok by (simp only: if_False if_True)
    then have "time_segment_matching L data w = Inl ValueError"
      using assms(1) unfolding assms(2,3) by (rule tsm_group_sum_fail[rotated])
    then show ?thesis using ok False by simp
  next
    case acc: True
    show ?thesis
    proof (cases "nat w * D = 0 \<or> nat n = 0")
      case True
      have "time_segment_matching L data w = Inl IndexError"
        using assms ok acc True by (intro run_empty[where D = D and n = n]) simp_all
      then show ?thesis using ok acc True by simp
    next
      case False
      then have "0 < w" "0 < n" "0 < D" by auto
      then have "time_segment_matching L data w =
          Inr (accuracies L D w n data, report L (accuracies L D w n data))"
        using assms acc by (intro run_ok) simp_all
      then show ?thesis using ok acc False by simp
    qed
  qed
qed

lemma tsm_Inr:
  assumes "time_segment_matching L data w = Inr (acc, out)"
    and "D = nrows (hd data)" "n = int (ncols (hd data)) - w"
  shows "data \<noteq> []" "0 < w" "0 < n" "0 < D" "\<forall>d\<in>set data. accepted D (nat w) (nat n) d"
    "acc = accuracies L D w n data" "out = report L (accuracies L D w n data)"
proof -
  show ne: "data \<noteq> []" using assms(1) by (auto simp: time_segment_matching_def)
  note c = tsm_cases[OF ne assms(2,3), of L]
  have r: "\<not> (int D * w < 0 \<or> n < 0)" "\<forall>d\<in>set data. accepted D (nat w) (nat n) d"
    "\<not> (nat w * D = 0 \<or> nat n = 0)"
    "(acc, out) = (accuracies L D w n data, report L (accuracies L D w n data))"
    using assms(1) unfolding c by (auto split: if_splits)
  show "0 < w" "0 < n" "0 < D" using r(3) by auto
  show "\<forall>d\<in>set data. accepted D (nat w) (nat n) d" by (rule r(2))
  show "acc = accuracies L D w n data" "out = report L (accuracies L D w n data)"
    using r(4) by simp_all
qed

lemma valid_accepted:
  assumes "nrows d = D" "ncols d = T" "0 \<le> w" "w \<le> int T"
  shows "accepted D (nat w) (nat (int T - w)) d"
  using assms by (auto simp: accepted_iff broadcastable_def col_slice_def Let_def)

lemma window_rows_valid:
  assumes "nrows d = D" "ncols d = T" "k < nat w" "w < int T" "r < D" "c < nat (int T - w)"
  shows "window_rows D (nat (int T - w)) d (k * D + r) c = cell d r (k + c)"
proof -
  have "(k * D + r) div D = k" "(k * D + r) mod D = r"
    using assms(5) by simp_all
  moreover have "min k T = k" "min (k + nat (int T - w)) T - k = nat (int T - w)"
    using assms(3,4) by auto
  ultimately show ?thesis
    using assms by (auto simp: window_rows_def bcast_def col_slice_def Let_def)
qed

lemma valid_inputD:
  assumes "valid_input data w" "D = nrows (hd data)" "n = int (ncols (hd data)) - w"
  shows "data \<noteq> []" "0 < w" "0 < n" "\<forall>d\<in>set data. accepted D (nat w) (nat n) d"
    "\<forall>d\<in>set data. nrows d = D \<and> ncols d = ncols (hd data)"
proof -
  have v: "data \<noteq> []" "0 < w" "w < int (ncols (hd data))"
    "\<forall>d\<in>set data. nrows d = nrows (hd data) \<and> ncols d = ncols (hd data)"
    using assms(1) unfolding valid_input_def same_shape_def list_all_iff by blast+
  show "data \<noteq> []" "0 < w" by (rule v)+
  show "0 < n" unfolding assms(3) using v(3) by simp
  show "\<forall>d\<in>set data. nrows d = D \<and> ncols d = ncols (hd data)"
    unfolding assms(2) by (rule v(4))
  show "\<forall>d\<in>set data. accepted D (nat w) (nat n) d"
    unfolding assms(2,3)
  proof
    fix d assume "d \<in> set data"
    then have "nrows d = nrows (hd data)" "ncols d = ncols (hd data)" using v(4) by simp_all
    then show "accepted (nrows (hd data)) (nat w) (nat (int (ncols (hd data)) - w)) d"
      using v(2,3) by (intro valid_accepted) simp_all
  qed
qed

subsection \<open>Rounding, standardisation and accuracies\<close>

lemma rhe_of_int [simp]: "rhe (of_int m) = m"
  by (simp add: rhe_def)

lemma rhe_numeral [simp]: "rhe (numeral n) = numeral n"
  using rhe_of_int[of "numeral n"] by simp

lemma rhe_lower: "\<lfloor>y\<rfloor> \<le> rhe y"
  by (simp add: rhe_def Let_def)

lemma rhe_le_int: "y \<le> of_int m \<Longrightarrow> rhe y \<le> m"
proof -
  assume a: "y \<le> of_int m"
  then have f: "\<lfloor>y\<rfloor> \<le> m" by (simp add: floor_le_iff) 
  show ?thesis
  proof (cases "\<lfloor>y\<rfloor> = m")
    case True
    then have "y = of_int m" using a by linarith 
    then show ?thesis by simp
  next
    case False
    then have "\<lfloor>y\<rfloor> + 1 \<le> m" using f by simp
    then show ?thesis by (auto simp: rhe_def Let_def)
  qed
qed

lemma fl64_binade:
  assumes "2 powr of_int k \<le> \<bar>x\<bar>" "\<bar>x\<bar> < 2 powr (of_int k + 1)"
  shows "fl64 x = of_int (rhe (x / 2 powr (of_int k - 52))) * 2 powr (of_int k - 52)"
proof -
  have pos: "0 < \<bar>x\<bar>" using assms(1) by (smt (verit) powr_gt_zero)
  then have "\<lfloor>log 2 \<bar>x\<bar>\<rfloor> = k"
    using assms by (simp add: floor_log_eq_powr_iff)
  then show ?thesis using pos by (auto simp: fl64_def ulp_def)
qed

lemma fl64_one: "fl64 1 = 1"
  using fl64_binade[of 0 1] by (simp add: powr_neg_numeral)

lemma fl64_big: "fl64 10000000000000001 = 10000000000000000"
  using fl64_binade[of 53 10000000000000001] by (simp add: rhe_def)


lemma fl64_nonneg: "0 \<le> x \<Longrightarrow> 0 \<le> fl64 x"
proof -
  assume "0 \<le> x"
  then have "0 \<le> x / ulp x" by (simp add: ulp_def)
  then have "0 \<le> rhe (x / ulp x)"
    using rhe_lower[of "x / ulp x"] by (smt (verit) zero_le_floor)
  then show ?thesis by (simp add: fl64_def ulp_def)
qed

lemma fl64_le_one:
  assumes "0 \<le> x" "x \<le> 1"
  shows "fl64 x \<le> 1"
proof (cases "x = 0 \<or> x = 1")
  case True
  then show ?thesis using fl64_one by (auto simp: fl64_def)
next
  case False
  then have x: "0 < x" "x < 1" using assms by auto
  define k where "k = \<lfloor>log 2 \<bar>x\<bar>\<rfloor>"
  have kb: "2 powr of_int k \<le> x" "x < 2 powr (of_int k + 1)"
    using x floor_log_eq_powr_iff[of x 2 k] by (simp_all add: k_def)
  have "(2::real) powr of_int k < 2 powr 0" using kb(1) x(2) by simp
  then have "of_int k < (0::real)"
    using powr_less_cancel_iff[of 2 "of_int k" 0] by simp
  then have "k < 0" by simp
  then have "k + 1 \<le> 0" by simp
  then have k1: "of_int k + 1 \<le> (0::real)"
    by (metis of_int_1 of_int_add of_int_le_0_iff)
  define u :: real where "u = 2 powr (of_int k - 52)"
  have u: "0 < u" by (simp add: u_def)
  have "x / u < 2 powr (of_int k + 1) / u" using kb(2) u by (simp add: divide_strict_right_mono)
  also have "\<dots> = 2 powr 53" by (simp add: u_def powr_diff[symmetric])
  finally have "x / u \<le> of_int (2 ^ 53)" by simp
  then have "rhe (x / u) \<le> 2 ^ 53" by (rule rhe_le_int)
  then have "of_int (rhe (x / u)) \<le> (2 ^ 53 :: real)" by (metis of_int_le_iff of_int_numeral of_int_power)
  then have "of_int (rhe (x / u)) * u \<le> 2 ^ 53 * u" using u by simp
  also have "\<dots> = 2 powr (of_int k + 1)"
  proof -
    have "(2::real) ^ 53 = 2 powr 53" by simp
    then show ?thesis unfolding u_def by (simp only: powr_add[symmetric]) (simp add: add.commute)
  qed
  also have "\<dots> \<le> 2 powr 0" using k1 by (intro powr_mono) simp_all
  finally have "of_int (rhe (x / u)) * u \<le> 1" by simp
  then show ?thesis using x by (simp add: fl64_def ulp_def u_def k_def)
qed

lemma fl64_fifth: "fl64 (1/5) = 3602879701896397 / 18014398509481984"
  using fl64_binade[of "-3" "1/5"] by (simp add: rhe_def powr_neg_numeral)

lemma fl64_half: "fl64 (1/2) = 1/2"
  using fl64_binade[of "-1" "1/2"] by (simp add: powr_neg_numeral)

lemma quotient_ok_exact: "quotient_ok (fdiv exact)"
  by (simp add: quotient_ok_def exact_def)

lemma quotient_ok_float64: "quotient_ok (fdiv float64)"
  unfolding quotient_ok_def
proof (intro allI impI)
  fix a b :: real
  assume h: "0 \<le> a \<and> a \<le> b \<and> 0 < b"
  then have "0 \<le> a / b" "a / b \<le> 1" by simp_all
  then have "0 \<le> fl64 (a / b)" "fl64 (a / b) \<le> 1"
    by (simp_all add: fl64_nonneg fl64_le_one)
  moreover have "fl64 (b / b) = 1" using h by (simp add: fl64_one)
  ultimately show "0 \<le> fdiv float64 a b \<and> fdiv float64 a b \<le> 1 \<and> fdiv float64 b b = 1"
    by (simp add: float64_def)
qed

lemma float64_fields [simp]:
  "fadd float64 a b = fl64 (a + b)" "fsub float64 a b = fl64 (a - b)"
  "fdiv float64 a b = fl64 (a / b)"
  "zscore_nan float64 = spec_zscore" "correlate float64 = spec_correlation"
  "np_mean float64 = mean64" "np_std float64 = std64"
  by (simp_all add: float64_def)

lemma exact_fields [simp]:
  "fadd exact = (\<lambda>a b. a + b)" "fsub exact = (\<lambda>a b. a - b)" "fdiv exact = (\<lambda>a b. a / b)"
  "zscore_nan exact = spec_zscore" "correlate exact = spec_correlation"
  by (simp_all add: exact_def)

lemma constant_sum: "\<forall>x\<in>set xs. x = c \<Longrightarrow> sum_list xs = real (length xs) * c"
  by (induction xs) (simp_all add: algebra_simps)

lemma sum_list_zero: "\<forall>x\<in>set xs. f x = (0::real) \<Longrightarrow> sum_list (map f xs) = 0"
  by (induction xs) simp_all

lemma spec_zscore_constant:
  assumes "\<forall>i<nrows a. cell a i j = c"
  shows "spec_zscore a i j = 0"
proof (cases "nrows a < 2")
  case True
  then show ?thesis by (simp add: spec_zscore_def column_def Let_def)
next
  case False
  let ?col = "column a j"
  have all: "\<forall>x\<in>set ?col. x = c" using assms by (auto simp: column_def)
  have len: "length ?col = nrows a" by (simp add: column_def)
  have m: "sum_list ?col / real (length ?col) = c"
    using constant_sum[OF all] False len by simp
  have "sum_list (map (\<lambda>x. (x - c)\<^sup>2) ?col) = 0"
    using all by (intro sum_list_zero) simp
  then show ?thesis by (simp add: spec_zscore_def Let_def m)
qed

lemma pearson_zero_left: "\<forall>v\<in>set x. v = 0 \<Longrightarrow> pearson x y = 0"
proof -
  assume z: "\<forall>v\<in>set x. v = 0"
  have s: "sum_list x = 0" using constant_sum[OF z] by simp
  have "sum_list (map (\<lambda>v. v\<^sup>2) x) = 0" using z by (intro sum_list_zero) simp
  then show ?thesis by (simp add: pearson_def Let_def s)
qed

lemma pearson_zero_right: "\<forall>v\<in>set y. v = 0 \<Longrightarrow> pearson x y = 0"
proof -
  assume z: "\<forall>v\<in>set y. v = 0"
  have s: "sum_list y = 0" using constant_sum[OF z] by simp
  have "sum_list (map (\<lambda>v. v\<^sup>2) y) = 0" using z by (intro sum_list_zero) simp
  then show ?thesis by (simp add: pearson_def Let_def s)
qed

lemma count_filter_upt: "length (filter P [0..<k]) = card {p. p < k \<and> P p}"
proof -
  have "set (filter P [0..<k]) = {p. p < k \<and> P p}" by auto
  then show ?thesis
    by (metis distinct_card distinct_filter distinct_upt)
qed

lemma masked_row_nonempty:
  "0 < k \<Longrightarrow> ncols cm = k \<Longrightarrow> row (mask_overlap w k cm) p \<noteq> []"
  by (simp add: row_def)

lemma masked_row_nth:
  assumes "ncols cm = k" "p < k" "q < k"
  shows "row (mask_overlap w k cm) p ! q = cell (mask_overlap w k cm) p q"
  using assms by (simp add: row_def)



lemma degenerate_cell:
  assumes "n \<le> w" "p < nat n" "q < nat n" "q \<noteq> p"
  shows "cell (mask_overlap w (nat n) M) p q = NegInf"
proof -
  have "\<bar>int p - int q\<bar> < w" using assms by linarith
  then show ?thesis using assms by (simp add: mask_overlap_cell)
qed

lemma degenerate_argmax:
  assumes "n \<le> w" "ncols trn = nat n" "p < nat n"
  shows "argmax_row (row (mask_overlap w (nat n) (corr_closed L trn tst)) p) = p"
proof -
  let ?M = "mask_overlap w (nat n) (corr_closed L trn tst)"
  let ?k = "argmax_row (row ?M p)"
  have nc: "ncols (corr_closed L trn tst) = nat n" using assms(2) by simp
  have len: "length (row ?M p) = nat n" using assms(2) by (simp add: row_def)
  then have "row ?M p \<noteq> []" using assms(3) by auto
  then have f: "is_first_argmax (row ?M p) ?k" by (rule argmax_row_first)
  then have k: "?k < nat n" and mx: "\<not> lt (row ?M p ! ?k) (row ?M p ! p)"
    using len assms(3) by (auto simp: is_first_argmax_def)
  have pp: "row ?M p ! p = cell (corr_closed L trn tst) p p"
    using nc assms(3) by (simp add: masked_row_nth mask_overlap_cell)
  then obtain c where c: "row ?M p ! p = Fin c"
    using corr_closed_cell[of L trn tst p p] by auto
  show ?thesis
  proof (rule ccontr)
    assume ne: "?k \<noteq> p"
    have "row ?M p ! ?k = cell ?M p ?k"
      using nc assms(3) k by (rule masked_row_nth)
    also have "\<dots> = NegInf"
      using assms(1,3) k ne by (rule degenerate_cell)
    finally show False using mx c by simp
  qed
qed

lemma degenerate_accuracy:
  assumes "0 < n" "n \<le> w" "ncols trn = nat n" "quotient_ok (fdiv L)"
  shows "subject_accuracy L w n trn tst = 1"
proof -
  have "filter (\<lambda>p. argmax_row (row (mask_overlap w (nat n) (corr_closed L trn tst)) p) = p)
          [0..<nat n] = [0..<nat n]"
    using assms(2,3) by (intro filter_True) (simp add: degenerate_argmax)
  moreover have "fdiv L (real_of_int n) (real_of_int n) = 1"
    using assms(1,4) unfolding quotient_ok_def
    by (metis of_int_0_less_iff order_refl less_imp_le)
  ultimately show ?thesis
    using assms(1) by (simp add: subject_accuracy_def)
qed

lemma rows_mismatch_rejected:
  assumes "0 < w" "nrows d \<noteq> D" "nrows d \<noteq> 1"
  shows "\<not> accepted D (nat w) k d"
proof -
  have "0 < nat w" using assms(1) by simp
  moreover have "\<not> broadcastable (col_slice d 0 (0 + k)) D k"
    using assms(2,3) by (simp add: broadcastable_def col_slice_def Let_def)
  ultimately show ?thesis unfolding accepted_iff by blast
qed

lemma longer_accepted:
  assumes "nrows d = D" "T - 1 \<le> ncols d" "0 < w" "w < int T"
  shows "accepted D (nat w) (nat (int T - w)) d"
  using assms by (auto simp: accepted_iff broadcastable_def col_slice_def Let_def)

subsection \<open>The examples\<close>

lemma fl64_zero [simp]: "fl64 0 = 0"
  by (simp add: fl64_def)

lemma fl64_two: "fl64 2 = 2"
  using fl64_binade[of 1 2] by (simp add: rhe_def powr_neg_numeral)

lemma fl64_e16: "fl64 10000000000000000 = 10000000000000000"
  using fl64_binade[of 53 10000000000000000] by (simp add: rhe_def)






lemma single_feature_cell:
  assumes "zscore_nan L = spec_zscore" "correlate L = spec_correlation" "nrows tst < 2"
  shows "cell (corr_closed L trn tst) p q = Fin 0"
proof -
  have z: "spec_zscore tst i p = 0" for i
    using assms(3) by (simp add: spec_zscore_def column_def Let_def)
  have "\<forall>v\<in>set (row (transpose_arr (nan_to_num_zscore L tst)) p). v = 0"
    by (auto simp: row_def transpose_arr_def nan_to_num_zscore_def assms(1) z)
  then have "pearson (row (transpose_arr (nan_to_num_zscore L tst)) p)
               (row (transpose_arr (nan_to_num_zscore L (subtract L trn tst))) q) = 0"
    by (rule pearson_zero_left)
  then show ?thesis by (simp add: corr_closed_def assms(2) spec_correlation_def)
qed

lemma tied_argmax:
  assumes "\<forall>q<nat n. cell (corr_closed L trn tst) p q = Fin 0" "ncols trn = nat n"
    and "0 < n" "p < nat n"
  shows "argmax_row (row (mask_overlap 1 (nat n) (corr_closed L trn tst)) p) = 0"
proof -
  let ?r = "row (mask_overlap 1 (nat n) (corr_closed L trn tst)) p"
  have len: "length ?r = nat n" using assms(2) by (simp add: row_def)
  have nth: "?r ! q = Fin 0" if "q < nat n" for q
    using that assms(1,2,4) by (simp add: masked_row_nth mask_overlap_cell)
  have ne: "?r \<noteq> []" using len assms(3) by auto
  have "is_first_argmax ?r 0"
    unfolding is_first_argmax_def using len assms(3) nth by simp
  moreover have "is_first_argmax ?r (argmax_row ?r)" using ne by (rule argmax_row_first)
  ultimately show ?thesis by (metis first_argmax_unique)
qed

lemma tied_accuracy:
  assumes "\<forall>p<nat n. \<forall>q<nat n. cell (corr_closed L trn tst) p q = Fin 0" "ncols trn = nat n"
    and "0 < n"
  shows "subject_accuracy L 1 n trn tst = fdiv L 1 (real_of_int n)"
proof -
  have "filter (\<lambda>p. argmax_row (row (mask_overlap 1 (nat n) (corr_closed L trn tst)) p) = p)
          [0..<nat n] = filter (\<lambda>p. 0 = p) [0..<nat n]"
    using assms by (intro filter_cong refl) (simp add: tied_argmax)
  also have "\<dots> = [0]"
  proof -
    have "[0..<nat n] = 0 # [1..<nat n]" using assms(3) by (simp add: upt_conv_Cons)
    moreover have "filter (\<lambda>p. 0 = p) [1..<nat n] = []" by (auto simp: filter_empty_conv)
    ultimately show ?thesis by simp
  qed
  finally show ?thesis by (simp add: subject_accuracy_def)
qed

lemma single_feature_accuracies:
  assumes "zscore_nan L = spec_zscore" "correlate L = spec_correlation" "0 < n"
  shows "accuracies L 1 1 n data = replicate (length data) (fdiv L 1 (real_of_int n))"
proof -
  have "subject_accuracy L 1 n (sum_closed L 1 (nat 1) (nat n) data)
          (seg_closed 1 (nat 1) (nat n) (data ! i)) = fdiv L 1 (real_of_int n)" for i
    using assms
    by (intro tied_accuracy) (simp_all add: single_feature_cell seg_closed_def sum_closed_def)
  then show ?thesis by (simp add: accuracies_def map_replicate_const)
qed

lemma ex_data_valid: "valid_input ex_data 1"
  by (simp add: valid_input_def same_shape_def ex_data_def array_def)

lemma ex_data_shape:
  "ex_data \<noteq> []" "length ex_data = 2"
  "nrows (hd ex_data) = 1" "ncols (hd ex_data) = 3"
  by (simp_all add: ex_data_def array_def)

lemma ex_data_accepted: "\<forall>d\<in>set ex_data. accepted 1 (nat 1) (nat 2) d"
  by (simp add: ex_data_def accepted_def broadcastable_def col_slice_def array_def)

lemma ex_four_valid: "valid_input ex_four 2"
  by (simp add: valid_input_def same_shape_def ex_four_def array_def)

lemma ex_four_shape:
  "ex_four \<noteq> []" "length ex_four = 2"
  "nrows (hd ex_four) = 1" "ncols (hd ex_four) = 4"
  by (simp_all add: ex_four_def array_def)

lemma ex_longer_accepted: "\<forall>d\<in>set ex_longer. accepted 1 (nat 1) (nat 2) d"
  by (simp add: ex_longer_def accepted_def broadcastable_def col_slice_def array_def)

lemma ex_longer_shape:
  "ex_longer \<noteq> []" "length ex_longer = 2" "nrows (hd ex_longer) = 1" "ncols (hd ex_longer) = 3"
  by (simp_all add: ex_longer_def array_def)

lemma ex_rows_shape:
  "ex_rows \<noteq> []" "nrows (hd ex_rows) = 1" "ncols (hd ex_rows) = 3"
  by (simp_all add: ex_rows_def array_def)

lemma ex_short_shape:
  "ex_short \<noteq> []" "nrows (hd ex_short) = 1" "ncols (hd ex_short) = 2" "same_shape ex_short"
  by (simp_all add: ex_short_def array_def same_shape_def)

lemma ex_const_valid: "valid_input ex_const 1"
  by (simp add: valid_input_def same_shape_def ex_const_def array_def)

lemma ex_const_shape:
  "ex_const \<noteq> []" "length ex_const = 2" "nrows (hd ex_const) = 2" "ncols (hd ex_const) = 3"
  by (simp_all add: ex_const_def array_def)

lemma ex_nofeat_valid: "valid_input ex_nofeat 1" "valid_input ex_nofeat 2"
  by (simp_all add: valid_input_def same_shape_def ex_nofeat_def zeros_def)

lemma ex_nofeat_shape:
  "ex_nofeat \<noteq> []" "nrows (hd ex_nofeat) = 0" "ncols (hd ex_nofeat) = 3"
  by (simp_all add: ex_nofeat_def zeros_def)

lemma ex_nofeat_fails:
  assumes "0 < w" "w < 3"
  shows "time_segment_matching L ex_nofeat w = Inl IndexError"
proof -
  have D: "(0::nat) = nrows (hd ex_nofeat)" and n: "3 - w = int (ncols (hd ex_nofeat)) - w"
    by (simp_all add: ex_nofeat_shape)
  have "accepted 0 (nat w) (nat (int 3 - w)) (zeros 0 3)"
    using assms by (intro valid_accepted) (simp_all add: zeros_def)
  then have a: "\<forall>d\<in>set ex_nofeat. accepted 0 (nat w) (nat (3 - w)) d"
    by (simp add: ex_nofeat_def)
  show ?thesis
    unfolding tsm_cases[OF ex_nofeat_shape(1) D n] using assms a by simp
qed



lemma ex_longer_run:
  "time_segment_matching float64 ex_longer 1 = Inr ([1/2, 1/2], report float64 [1/2, 1/2])"
proof -
  have 1: "ex_longer \<noteq> []" "(1::nat) = nrows (hd ex_longer)" "(2::int) = int (ncols (hd ex_longer)) - 1"
    by (simp_all add: ex_longer_shape)
  have run: "time_segment_matching float64 ex_longer 1 =
     Inr (accuracies float64 1 1 2 ex_longer, report float64 (accuracies float64 1 1 2 ex_longer))"
    using 1 by (rule run_ok) (use ex_longer_accepted in simp_all)
  have acc: "accuracies float64 1 1 2 ex_longer = [1/2, 1/2]"
    using single_feature_accuracies[of float64 2 ex_longer] fl64_half
    by (simp add: ex_longer_shape numeral_2_eq_2)
  show ?thesis unfolding run acc ..
qed


section \<open>Properties\<close>

text \<open>
  C1 (leave-one-out correction, as the code has it). Whenever the accumulation of the
  group sum succeeds, every subject has a segment matrix of the group sum's shape. Every
  entry of the group sum \<open>trn_data\<close> is the result of adding the corresponding entries
  of the segment matrices of all subjects (the held-out one included) to 0, from left
  to right, with the addition of the arithmetic in use. For every held-out subject \<open>k\<close>
  every entry of the matrix \<open>trn_data - tst_data\<close>, which is standardised into \<open>A\<close> and
  correlated, is the difference of that entry of the group sum and of the subject's
  segment matrix, in the arithmetic in use. When the addition and the subtraction are
  exact, the group sum is the sum of all segment matrices and the difference is the sum
  of the segment matrices of the other subjects.
\<close>

theorem leave_one_out_template:
  assumes "group_sum L D w n data = Inr trn"
  shows "\<exists>segs. length segs = length data \<and>
     (\<forall>k<length data. segment_matrix D w n (data ! k) = Inr (segs ! k) \<and>
         nrows (segs ! k) = nrows trn \<and> ncols (segs ! k) = ncols trn) \<and>
     (\<forall>i<nrows trn. \<forall>j<ncols trn.
         cell trn i j = foldl (fadd L) 0 (map (\<lambda>k. cell (segs ! k) i j) [0..<length data])) \<and>
     (\<forall>k<length data. \<forall>i<nrows trn. \<forall>j<ncols trn.
         cell (subtract L trn (segs ! k)) i j = fsub L (cell trn i j) (cell (segs ! k) i j)) \<and>
     (\<forall>k<length data.
         corr_matrix L trn (segs ! k) =
           compute_correlation L (transpose_arr (nan_to_num_zscore L (segs ! k)))
             (transpose_arr (nan_to_num_zscore L (subtract L trn (segs ! k)))) \<and>
         analyze_subject L data D w n trn k =
           (case corr_matrix L trn (segs ! k) of
              Inl e \<Rightarrow> Inl e
            | Inr cm \<Rightarrow> score L (mask_overlap w (nat n) cm) n)) \<and>
     (fadd L = (\<lambda>a b. a + b) \<and> fsub L = (\<lambda>a b. a - b) \<longrightarrow>
        (\<forall>k<length data. \<forall>i<nrows trn. \<forall>j<ncols trn.
           cell trn i j = (\<Sum>m<length data. cell (segs ! m) i j) \<and>
           cell (subtract L trn (segs ! k)) i j =
             (\<Sum>m\<in>{..<length data} - {k}. cell (segs ! m) i j)))"
proof -
  note gs = group_sum_Inr[OF assms]
  define segs where "segs = map (seg_closed D (nat w) (nat n)) data"
  have len: "length segs = length data" by (simp add: segs_def)
  have seg: "segment_matrix D w n (data ! k) = Inr (segs ! k)" if "k < length data" for k
    using that gs(1-3) by (simp add: segs_def segment_matrix_closed)
  have shape: "nrows (segs ! k) = nrows trn \<and> ncols (segs ! k) = ncols trn" if "k < length data" for k
    using that by (simp add: segs_def gs(4) seg_closed_def sum_closed_def)
  have cells: "map (\<lambda>d. window_rows D (nat n) d i j) data =
               map (\<lambda>k. cell (segs ! k) i j) [0..<length data]" if "i < nrows trn" for i j
  proof -
    have "map (\<lambda>d. window_rows D (nat n) d i j) data =
          map (\<lambda>k. window_rows D (nat n) (data ! k) i j) [0..<length data]"
      by (rule map_index)
    also have "\<dots> = map (\<lambda>k. cell (segs ! k) i j) [0..<length data]"
      using that by (intro map_cong) (simp_all add: segs_def seg_closed_def gs(4) sum_closed_def)
    finally show ?thesis .
  qed
  have total: "cell trn i j = foldl (fadd L) 0 (map (\<lambda>k. cell (segs ! k) i j) [0..<length data])"
    if "i < nrows trn" for i j
    using that cells[OF that, of j] by (simp add: gs(4) sum_closed_def)
  have diff: "cell (subtract L trn (segs ! k)) i j = fsub L (cell trn i j) (cell (segs ! k) i j)"
    for k i j
    by (simp add: subtract_def)
  have an: "analyze_subject L data D w n trn k =
           (case corr_matrix L trn (segs ! k) of
              Inl e \<Rightarrow> Inl e
            | Inr cm \<Rightarrow> score L (mask_overlap w (nat n) cm) n)"
    if "k < length data" for k
    using seg[OF that] by (simp add: analyze_subject_def)
  have cm: "corr_matrix L trn (segs ! k) =
           compute_correlation L (transpose_arr (nan_to_num_zscore L (segs ! k)))
             (transpose_arr (nan_to_num_zscore L (subtract L trn (segs ! k))))" for k
    by (simp add: corr_matrix_def Let_def)
  have ex: "cell trn i j = (\<Sum>m<length data. cell (segs ! m) i j) \<and>
           cell (subtract L trn (segs ! k)) i j =
             (\<Sum>m\<in>{..<length data} - {k}. cell (segs ! m) i j)"
    if e: "fadd L = (\<lambda>a b. a + b) \<and> fsub L = (\<lambda>a b. a - b)"
      and k: "k < length data" and i: "i < nrows trn" for k i j
  proof -
    have "cell trn i j = foldl (+) 0 (map (\<lambda>k. cell (segs ! k) i j) [0..<length data])"
      using total[OF i, of j] e by simp
    also have "\<dots> = sum_list (map (\<lambda>k. cell (segs ! k) i j) [0..<length data])"
      by (simp add: foldl_plus)
    also have "\<dots> = (\<Sum>m<length data. cell (segs ! m) i j)"
      by (simp add: sum_list_nth atLeast0LessThan)
    finally have t: "cell trn i j = (\<Sum>m<length data. cell (segs ! m) i j)" .
    have "cell (subtract L trn (segs ! k)) i j = cell trn i j - cell (segs ! k) i j"
      using e by (simp add: subtract_def)
    also have "\<dots> = (\<Sum>m\<in>{..<length data} - {k}. cell (segs ! m) i j)"
      using k t by (simp add: sum_diff1)
    finally show ?thesis using t by simp
  qed
  show ?thesis
  proof (intro exI[of _ segs] conjI)
    show "length segs = length data" by (rule len)
    show "\<forall>k<length data. segment_matrix D w n (data ! k) = Inr (segs ! k) \<and>
         nrows (segs ! k) = nrows trn \<and> ncols (segs ! k) = ncols trn"
      using seg shape by blast
    show "\<forall>i<nrows trn. \<forall>j<ncols trn.
         cell trn i j = foldl (fadd L) 0 (map (\<lambda>k. cell (segs ! k) i j) [0..<length data])"
      using total by blast
    show "\<forall>k<length data. \<forall>i<nrows trn. \<forall>j<ncols trn.
         cell (subtract L trn (segs ! k)) i j = fsub L (cell trn i j) (cell (segs ! k) i j)"
      using diff by blast
    show "\<forall>k<length data.
         corr_matrix L trn (segs ! k) =
           compute_correlation L (transpose_arr (nan_to_num_zscore L (segs ! k)))
             (transpose_arr (nan_to_num_zscore L (subtract L trn (segs ! k)))) \<and>
         analyze_subject L data D w n trn k =
           (case corr_matrix L trn (segs ! k) of
              Inl e \<Rightarrow> Inl e
            | Inr cm \<Rightarrow> score L (mask_overlap w (nat n) cm) n)"
      using an cm by blast
    show "fadd L = (\<lambda>a b. a + b) \<and> fsub L = (\<lambda>a b. a - b) \<longrightarrow>
        (\<forall>k<length data. \<forall>i<nrows trn. \<forall>j<ncols trn.
           cell trn i j = (\<Sum>m<length data. cell (segs ! m) i j) \<and>
           cell (subtract L trn (segs ! k)) i j =
             (\<Sum>m\<in>{..<length data} - {k}. cell (segs ! m) i j))"
      using ex by blast
  qed
qed

text \<open>The theorem at a concrete input, in exact arithmetic.\<close>

theorem leave_one_out_template_witness:
  "group_sum exact 1 1 2 ex_data = Inr (sum_closed exact 1 1 2 ex_data) \<and>
   fadd exact = (\<lambda>a b. a + b) \<and> fsub exact = (\<lambda>a b. a - b) \<and>
   (\<exists>segs. length segs = length ex_data \<and>
     (\<forall>k<length ex_data. segment_matrix 1 1 2 (ex_data ! k) = Inr (segs ! k) \<and>
         nrows (segs ! k) = nrows (sum_closed exact 1 1 2 ex_data) \<and>
         ncols (segs ! k) = ncols (sum_closed exact 1 1 2 ex_data)) \<and>
     (\<forall>i<nrows (sum_closed exact 1 1 2 ex_data). \<forall>j<ncols (sum_closed exact 1 1 2 ex_data).
         cell (sum_closed exact 1 1 2 ex_data) i j =
           foldl (fadd exact) 0 (map (\<lambda>k. cell (segs ! k) i j) [0..<length ex_data])) \<and>
     (\<forall>k<length ex_data. \<forall>i<nrows (sum_closed exact 1 1 2 ex_data).
        \<forall>j<ncols (sum_closed exact 1 1 2 ex_data).
         cell (subtract exact (sum_closed exact 1 1 2 ex_data) (segs ! k)) i j =
           fsub exact (cell (sum_closed exact 1 1 2 ex_data) i j) (cell (segs ! k) i j)) \<and>
     (\<forall>k<length ex_data.
         corr_matrix exact (sum_closed exact 1 1 2 ex_data) (segs ! k) =
           compute_correlation exact (transpose_arr (nan_to_num_zscore exact (segs ! k)))
             (transpose_arr (nan_to_num_zscore exact
                (subtract exact (sum_closed exact 1 1 2 ex_data) (segs ! k)))) \<and>
         analyze_subject exact ex_data 1 1 2 (sum_closed exact 1 1 2 ex_data) k =
           (case corr_matrix exact (sum_closed exact 1 1 2 ex_data) (segs ! k) of
              Inl e \<Rightarrow> Inl e
            | Inr cm \<Rightarrow> score exact (mask_overlap 1 (nat 2) cm) 2)) \<and>
     (fadd exact = (\<lambda>a b. a + b) \<and> fsub exact = (\<lambda>a b. a - b) \<longrightarrow>
        (\<forall>k<length ex_data. \<forall>i<nrows (sum_closed exact 1 1 2 ex_data).
           \<forall>j<ncols (sum_closed exact 1 1 2 ex_data).
           cell (sum_closed exact 1 1 2 ex_data) i j = (\<Sum>m<length ex_data. cell (segs ! m) i j) \<and>
           cell (subtract exact (sum_closed exact 1 1 2 ex_data) (segs ! k)) i j =
             (\<Sum>m\<in>{..<length ex_data} - {k}. cell (segs ! m) i j))))"
proof -
  have h: "group_sum exact 1 1 2 ex_data = Inr (sum_closed exact 1 1 2 ex_data)"
    using ex_data_accepted by (simp add: group_sum_cases)
  have e: "fadd exact = (\<lambda>a b. a + b)" "fsub exact = (\<lambda>a b. a - b)" by simp_all
  show ?thesis
    using h e leave_one_out_template[OF h] by (intro conjI)
qed

text \<open>
  C1 as the specification states it fails in float64. The first subject has \<open>10^16\<close>
  where the second has 1: the group sum is rounded to \<open>10^16\<close>, and the matrix
  \<open>trn_data - tst_data\<close> of the first subject has 0 where the segment matrix of the
  only other subject has 1.
\<close>

theorem leave_one_out_template_counterexample:
  "group_sum float64 1 1 2 ex_big = Inr (sum_closed float64 1 1 2 ex_big) \<and>
   segment_matrix 1 1 2 (ex_big ! 0) = Inr (seg_closed 1 1 2 (ex_big ! 0)) \<and>
   segment_matrix 1 1 2 (ex_big ! 1) = Inr (seg_closed 1 1 2 (ex_big ! 1)) \<and>
   cell (seg_closed 1 1 2 (ex_big ! 0)) 0 0 = 10000000000000000 \<and>
   cell (seg_closed 1 1 2 (ex_big ! 1)) 0 0 = 1 \<and>
   cell (sum_closed float64 1 1 2 ex_big) 0 0 = 10000000000000000 \<and>
   cell (subtract float64 (sum_closed float64 1 1 2 ex_big) (seg_closed 1 1 2 (ex_big ! 0))) 0 0 = 0 \<and>
   cell (subtract float64 (sum_closed float64 1 1 2 ex_big) (seg_closed 1 1 2 (ex_big ! 0))) 0 0
     \<noteq> cell (seg_closed 1 1 2 (ex_big ! 1)) 0 0"
proof -
  have a: "\<forall>d\<in>set ex_big. accepted 1 (nat 1) (nat 2) d"
    by (simp add: ex_big_def accepted_def broadcastable_def col_slice_def array_def)
  have g: "group_sum float64 1 1 2 ex_big = Inr (sum_closed float64 1 1 2 ex_big)"
    using a by (simp add: group_sum_cases)
  have s0: "segment_matrix 1 1 2 (ex_big ! 0) = Inr (seg_closed 1 1 2 (ex_big ! 0))"
    using a segment_matrix_closed[of 1 1 2 "ex_big ! 0"] by (simp add: ex_big_def)
  have s1: "segment_matrix 1 1 2 (ex_big ! 1) = Inr (seg_closed 1 1 2 (ex_big ! 1))"
    using a segment_matrix_closed[of 1 1 2 "ex_big ! 1"] by (simp add: ex_big_def)
  have c0: "cell (seg_closed 1 1 2 (ex_big ! 0)) 0 0 = 10000000000000000"
    by (simp add: seg_closed_def window_rows_def bcast_def col_slice_def ex_big_def array_def)
  have c1: "cell (seg_closed 1 1 2 (ex_big ! 1)) 0 0 = 1"
    by (simp add: seg_closed_def window_rows_def bcast_def col_slice_def ex_big_def array_def)
  have t: "cell (sum_closed float64 1 1 2 ex_big) 0 0 = 10000000000000000"
    by (simp add: sum_closed_def window_rows_def bcast_def col_slice_def ex_big_def array_def
        fl64_e16 fl64_big)
  have d: "cell (subtract float64 (sum_closed float64 1 1 2 ex_big) (seg_closed 1 1 2 (ex_big ! 0))) 0 0 = 0"
    unfolding subtract_def using t c0 by simp
  show ?thesis using g s0 s1 c0 c1 t d by simp
qed

text \<open>
  C2 (exclusion masking). For segment indices \<open>p, q < nseg\<close> the exclusion loop stores
  \<open>-inf\<close> at \<open>[p][q]\<close> when \<open>|p - q| < win_size\<close> and \<open>p \<noteq> q\<close>, and leaves the entry as
  it was otherwise; on the correlation matrix that \<open>compute_correlation\<close> returns, whose
  entries are finite, the entry is \<open>-inf\<close> afterwards if and only if that condition
  holds. The diagonal entry \<open>[p][p]\<close> is never changed and is not \<open>-inf\<close>.
  \<open>compute_correlation\<close> returns a matrix whenever the segment matrix and the group sum
  have at least one row and one column.
\<close>

theorem exclusion_mask:
  assumes "p < nseg" "q < nseg"
  shows "cell (mask_overlap w nseg M) p q =
           (if \<bar>int p - int q\<bar> < w \<and> p \<noteq> q then NegInf else cell M p q) \<and>
         cell (mask_overlap w nseg M) p p = cell M p p \<and>
         (\<forall>cm. corr_matrix L trn tst = Inr cm \<longrightarrow>
            ((cell (mask_overlap w nseg cm) p q = NegInf) = (\<bar>int p - int q\<bar> < w \<and> p \<noteq> q)) \<and>
            cell (mask_overlap w nseg cm) p p \<noteq> NegInf) \<and>
         (0 < nrows tst \<and> 0 < ncols tst \<and> 0 < nrows trn \<and> 0 < ncols trn \<longrightarrow>
            (\<exists>cm. corr_matrix L trn tst = Inr cm))"
proof (intro conjI allI impI)
  assume "0 < nrows tst \<and> 0 < ncols tst \<and> 0 < nrows trn \<and> 0 < ncols trn"
  then show "\<exists>cm. corr_matrix L trn tst = Inr cm" by (simp add: corr_matrix_cases)
next
  fix cm assume "corr_matrix L trn tst = Inr cm"
  then have cm: "cm = corr_closed L trn tst" by (rule corr_matrix_Inr)
  show "(cell (mask_overlap w nseg cm) p q = NegInf) = (\<bar>int p - int q\<bar> < w \<and> p \<noteq> q)"
    using assms by (simp add: mask_overlap_cell cm corr_closed_def)
  show "cell (mask_overlap w nseg cm) p p \<noteq> NegInf"
    using assms by (simp add: mask_overlap_cell cm corr_closed_def)
qed (use assms in \<open>simp_all add: mask_overlap_cell\<close>)

text \<open>The theorem at a concrete input.\<close>

theorem exclusion_mask_witness:
  "(0::nat) < 3 \<and> (1::nat) < 3 \<and>
   0 < nrows (array [[1, 2, 3], [0, 1, 0::real]]) \<and> 0 < ncols (array [[1, 2, 3], [0, 1, 0::real]]) \<and>
   0 < nrows (array [[2, 4, 6], [1, 0, 1::real]]) \<and> 0 < ncols (array [[2, 4, 6], [1, 0, 1::real]]) \<and>
   (\<exists>cm. corr_matrix float64 (array [[2, 4, 6], [1, 0, 1]]) (array [[1, 2, 3], [0, 1, 0]]) = Inr cm) \<and>
   corr_matrix float64 (array [[2, 4, 6], [1, 0, 1]]) (array [[1, 2, 3], [0, 1, 0]]) =
     Inr (corr_closed float64 (array [[2, 4, 6], [1, 0, 1]]) (array [[1, 2, 3], [0, 1, 0]])) \<and>
   cell (mask_overlap 2 3
      (corr_closed float64 (array [[2, 4, 6], [1, 0, 1]]) (array [[1, 2, 3], [0, 1, 0]]))) 0 1 =
     (if \<bar>int 0 - int 1\<bar> < 2 \<and> (0::nat) \<noteq> 1 then NegInf
      else cell (corr_closed float64 (array [[2, 4, 6], [1, 0, 1]]) (array [[1, 2, 3], [0, 1, 0]])) 0 1) \<and>
   cell (mask_overlap 2 3
      (corr_closed float64 (array [[2, 4, 6], [1, 0, 1]]) (array [[1, 2, 3], [0, 1, 0]]))) 0 0 =
     cell (corr_closed float64 (array [[2, 4, 6], [1, 0, 1]]) (array [[1, 2, 3], [0, 1, 0]])) 0 0 \<and>
   ((cell (mask_overlap 2 3
      (corr_closed float64 (array [[2, 4, 6], [1, 0, 1]]) (array [[1, 2, 3], [0, 1, 0]]))) 0 1 = NegInf) =
      (\<bar>int 0 - int 1\<bar> < 2 \<and> (0::nat) \<noteq> 1)) \<and>
   cell (mask_overlap 2 3
      (corr_closed float64 (array [[2, 4, 6], [1, 0, 1]]) (array [[1, 2, 3], [0, 1, 0]]))) 0 0 \<noteq> NegInf"
proof -
  have p: "(0::nat) < 3" and q: "(1::nat) < 3" by simp_all
  have c: "corr_matrix float64 (array [[2, 4, 6], [1, 0, 1]]) (array [[1, 2, 3], [0, 1, 0]]) =
     Inr (corr_closed float64 (array [[2, 4, 6], [1, 0, 1]]) (array [[1, 2, 3], [0, 1, 0]]))"
    by (simp add: corr_matrix_cases array_def)
  note t = exclusion_mask[OF p q, where w = 2
        and M = "corr_closed float64 (array [[2, 4, 6], [1, 0, 1]]) (array [[1, 2, 3], [0, 1, 0]])"
        and L = float64 and trn = "array [[2, 4, 6], [1, 0, 1]]" and tst = "array [[1, 2, 3], [0, 1, 0]]"]
  have s: "0 < nrows (array [[1, 2, 3], [0, 1, 0::real]])" "0 < ncols (array [[1, 2, 3], [0, 1, 0::real]])"
    "0 < nrows (array [[2, 4, 6], [1, 0, 1::real]])" "0 < ncols (array [[2, 4, 6], [1, 0, 1::real]])"
    by (simp_all add: array_def)
  have e: "\<exists>cm. corr_matrix float64 (array [[2, 4, 6], [1, 0, 1]]) (array [[1, 2, 3], [0, 1, 0]]) = Inr cm"
    using t s by blast
  show ?thesis
    using p q s e c t by (intro conjI) blast+
qed

text \<open>
  C3 (classification and scoring). On a valid input with at least one feature the call
  returns. Whenever the call returns, for every held-out subject \<open>i\<close> the prediction for
  row \<open>p\<close> of the masked correlation matrix is the first index at which the row is
  largest (no entry of the row is larger, every entry before it is smaller), and the
  accuracy stored for the subject is the float64 quotient of the number of rows
  \<open>p < nseg\<close> predicted as \<open>p\<close>, and \<open>nseg\<close>.
\<close>

theorem classification_scoring:
  assumes "i < length data" "D = nrows (hd data)" "n = int (ncols (hd data)) - w"
  shows "(valid_input data w \<and> 0 < D \<longrightarrow>
            (\<exists>acc out. time_segment_matching L data w = Inr (acc, out))) \<and>
         (\<forall>acc out. time_segment_matching L data w = Inr (acc, out) \<longrightarrow>
            (\<exists>trn tst cm.
               group_sum L D w n data = Inr trn \<and>
               segment_matrix D w n (data ! i) = Inr tst \<and>
               corr_matrix L trn tst = Inr cm \<and>
               (\<forall>p<nat n. is_first_argmax (row (mask_overlap w (nat n) cm) p)
                            (argmax_row (row (mask_overlap w (nat n) cm) p))) \<and>
               acc ! i =
                 fdiv L (real (card {p. p < nat n \<and>
                                        argmax_row (row (mask_overlap w (nat n) cm) p) = p}))
                        (real (nat n))))"
proof (intro conjI allI impI)
  assume v: "valid_input data w \<and> 0 < D"
  note d = valid_inputD[OF conjunct1[OF v] assms(2,3)]
  have "time_segment_matching L data w =
     Inr (accuracies L D w n data, report L (accuracies L D w n data))"
    using d(1) assms(2,3) d(2,3) conjunct2[OF v] d(4) by (rule run_ok)
  then show "\<exists>acc out. time_segment_matching L data w = Inr (acc, out)" by blast
next
  fix acc out
  assume ret: "time_segment_matching L data w = Inr (acc, out)"
  note r = tsm_Inr[OF ret assms(2,3)]
  let ?trn = "sum_closed L D (nat w) (nat n) data"
  let ?tst = "seg_closed D (nat w) (nat n) (data ! i)"
  let ?cm = "corr_closed L ?trn ?tst"
  have gs: "group_sum L D w n data = Inr ?trn"
    using r by (simp add: group_sum_cases not_less[symmetric] mult_less_0_iff)
  have "accepted D (nat w) (nat n) (data ! i)" using r(5) assms(1) by simp
  then have seg: "segment_matrix D w n (data ! i) = Inr ?tst"
    using r by (intro segment_matrix_closed) simp_all
  have cm: "corr_matrix L ?trn ?tst = Inr ?cm"
    using r(2,3,4) by (simp add: corr_matrix_cases seg_closed_def sum_closed_def)
  have first: "is_first_argmax (row (mask_overlap w (nat n) ?cm) p)
                  (argmax_row (row (mask_overlap w (nat n) ?cm) p))" for p
    using r(3) by (intro argmax_row_first masked_row_nonempty) (simp_all add: sum_closed_def)
  have acc: "acc ! i =
       fdiv L (real (card {p. p < nat n \<and> argmax_row (row (mask_overlap w (nat n) ?cm) p) = p}))
              (real (nat n))"
    using assms(1) r(3) unfolding r(6)
    by (simp add: accuracies_def subject_accuracy_def count_filter_upt)
  show "\<exists>trn tst cm.
     group_sum L D w n data = Inr trn \<and>
     segment_matrix D w n (data ! i) = Inr tst \<and>
     corr_matrix L trn tst = Inr cm \<and>
     (\<forall>p<nat n. is_first_argmax (row (mask_overlap w (nat n) cm) p)
                  (argmax_row (row (mask_overlap w (nat n) cm) p))) \<and>
     acc ! i =
       fdiv L (real (card {p. p < nat n \<and> argmax_row (row (mask_overlap w (nat n) cm) p) = p}))
              (real (nat n))"
  proof (intro exI conjI)
    show "group_sum L D w n data = Inr ?trn" by (rule gs)
    show "segment_matrix D w n (data ! i) = Inr ?tst" by (rule seg)
    show "corr_matrix L ?trn ?tst = Inr ?cm" by (rule cm)
    show "\<forall>p<nat n. is_first_argmax (row (mask_overlap w (nat n) ?cm) p)
                  (argmax_row (row (mask_overlap w (nat n) ?cm) p))"
      using first by blast
    show "acc ! i =
       fdiv L (real (card {p. p < nat n \<and> argmax_row (row (mask_overlap w (nat n) ?cm) p) = p}))
              (real (nat n))" by (rule acc)
  qed
qed

text \<open>The theorem at a concrete input.\<close>

theorem classification_scoring_witness:
  "(0::nat) < length ex_data \<and> (1::nat) = nrows (hd ex_data) \<and>
   (2::int) = int (ncols (hd ex_data)) - 1 \<and> valid_input ex_data 1 \<and> (0::nat) < 1 \<and>
   time_segment_matching float64 ex_data 1 =
     Inr (accuracies float64 1 1 2 ex_data, report float64 (accuracies float64 1 1 2 ex_data)) \<and>
   (\<exists>trn tst cm.
      group_sum float64 1 1 2 ex_data = Inr trn \<and>
      segment_matrix 1 1 2 (ex_data ! 0) = Inr tst \<and>
      corr_matrix float64 trn tst = Inr cm \<and>
      (\<forall>p<nat 2. is_first_argmax (row (mask_overlap 1 (nat 2) cm) p)
                   (argmax_row (row (mask_overlap 1 (nat 2) cm) p))) \<and>
      accuracies float64 1 1 2 ex_data ! 0 =
        fdiv float64 (real (card {p. p < nat 2 \<and> argmax_row (row (mask_overlap 1 (nat 2) cm) p) = p}))
          (real (nat 2)))"
proof -
  have h: "(0::nat) < length ex_data" "(1::nat) = nrows (hd ex_data)"
    "(2::int) = int (ncols (hd ex_data)) - 1"
    by (simp_all add: ex_data_shape)
  have v: "valid_input ex_data 1" "(0::nat) < 1" by (simp_all add: ex_data_valid)
  have run: "time_segment_matching float64 ex_data 1 =
     Inr (accuracies float64 1 1 2 ex_data, report float64 (accuracies float64 1 1 2 ex_data))"
    using ex_data_shape(1) h(2,3) by (rule run_ok) (use ex_data_accepted in simp_all)
  note t = classification_scoring[OF h, where L = float64]
  have "\<exists>trn tst cm.
      group_sum float64 1 1 2 ex_data = Inr trn \<and>
      segment_matrix 1 1 2 (ex_data ! 0) = Inr tst \<and>
      corr_matrix float64 trn tst = Inr cm \<and>
      (\<forall>p<nat 2. is_first_argmax (row (mask_overlap 1 (nat 2) cm) p)
                   (argmax_row (row (mask_overlap 1 (nat 2) cm) p))) \<and>
      accuracies float64 1 1 2 ex_data ! 0 =
        fdiv float64 (real (card {p. p < nat 2 \<and> argmax_row (row (mask_overlap 1 (nat 2) cm) p) = p}))
          (real (nat 2))"
    using conjunct2[OF t] run by blast
  then show ?thesis using h v run by (intro conjI)
qed

text \<open>
  C4 (segment construction). For a time series \<open>d\<close> of shape \<open>D \<times> T\<close> and
  \<open>0 < win_size < T\<close> the segment matrix is built without error, has
  \<open>D * win_size\<close> rows and \<open>T - win_size\<close> columns, and row \<open>r\<close> of its block \<open>w\<close> holds
  row \<open>r\<close> of the columns \<open>w, ..., w + nseg - 1\<close> of \<open>d\<close>.
\<close>

theorem segment_construction:
  assumes "0 < win_size" "win_size < int (ncols d)"
  shows "\<exists>tst. segment_matrix (nrows d) win_size (int (ncols d) - win_size) d = Inr tst \<and>
     nrows tst = nrows d * nat win_size \<and>
     ncols tst = ncols d - nat win_size \<and>
     (\<forall>w<nat win_size. \<forall>r<nrows d. \<forall>c<ncols d - nat win_size.
         cell tst (w * nrows d + r) c = cell d r (w + c))"
proof -
  let ?n = "int (ncols d) - win_size"
  have n: "nat ?n = ncols d - nat win_size" using assms by simp
  have acc: "accepted (nrows d) (nat win_size) (nat ?n) d"
    using assms by (intro valid_accepted) simp_all
  have seg: "segment_matrix (nrows d) win_size ?n d = Inr (seg_closed (nrows d) (nat win_size) (nat ?n) d)"
    using assms acc by (intro segment_matrix_closed) simp_all
  have cells: "cell (seg_closed (nrows d) (nat win_size) (nat ?n) d) (w * nrows d + r) c = cell d r (w + c)"
    if "w < nat win_size" "r < nrows d" "c < ncols d - nat win_size" for w r c
  proof -
    have "Suc w * nrows d \<le> nat win_size * nrows d"
      using that(1) mult_le_mono1[of "Suc w" "nat win_size" "nrows d"] by simp
    then have "w * nrows d + r < nat win_size * nrows d"
      using that(2) by simp
    moreover have "window_rows (nrows d) (nat ?n) d (w * nrows d + r) c = cell d r (w + c)"
      using that assms n by (intro window_rows_valid) simp_all
    ultimately show ?thesis by (simp add: seg_closed_def)
  qed
  show ?thesis
    apply (rule exI[of _ "seg_closed (nrows d) (nat win_size) (nat ?n) d"])
    using seg cells n by (simp add: seg_closed_def mult.commute)
qed

text \<open>The theorem at a concrete input.\<close>

theorem segment_construction_witness:
  "(0::int) < 1 \<and> (1::int) < int (ncols (array [[1, 2, 3], [4, 5, 6::real]])) \<and>
   (\<exists>tst. segment_matrix (nrows (array [[1, 2, 3], [4, 5, 6::real]])) 1
             (int (ncols (array [[1, 2, 3], [4, 5, 6::real]])) - 1)
             (array [[1, 2, 3], [4, 5, 6]]) = Inr tst \<and>
     nrows tst = nrows (array [[1, 2, 3], [4, 5, 6::real]]) * nat 1 \<and>
     ncols tst = ncols (array [[1, 2, 3], [4, 5, 6::real]]) - nat 1 \<and>
     (\<forall>w<nat 1. \<forall>r<nrows (array [[1, 2, 3], [4, 5, 6::real]]).
        \<forall>c<ncols (array [[1, 2, 3], [4, 5, 6::real]]) - nat 1.
         cell tst (w * nrows (array [[1, 2, 3], [4, 5, 6::real]]) + r) c =
           cell (array [[1, 2, 3], [4, 5, 6]]) r (w + c)))"
proof -
  have h: "(0::int) < 1" "(1::int) < int (ncols (array [[1, 2, 3], [4, 5, 6::real]]))"
    by (simp_all add: array_def)
  show ?thesis
    using h segment_construction[OF h] by (intro conjI)
qed

text \<open>
  C5 (as the code has it). The function validates nothing and never raises
  InvalidWindowError. With at least one subject and \<open>win_size \<ge> T\<close> or \<open>win_size \<le> 0\<close>
  (\<open>T\<close> of the first subject) the call fails, with ValueError or with IndexError, and
  returns no accuracy vector. A window longer than \<open>T\<close>, or a negative window with
  \<open>D > 0\<close>, makes \<open>np.zeros\<close> raise ValueError when \<open>trn_data\<close> is allocated, before any
  data is read. When all subjects have the first one's shape, \<open>win_size = T\<close> and
  \<open>win_size = 0\<close> end in the IndexError of \<open>compute_correlation\<close>, raised for the first
  held-out subject after the group sum has been computed.
\<close>

theorem window_not_validated:
  assumes "data \<noteq> []" "int (ncols (hd data)) \<le> w \<or> w \<le> 0"
  shows "(time_segment_matching L data w = Inl ValueError \<or>
          time_segment_matching L data w = Inl IndexError) \<and>
         (int (ncols (hd data)) < w \<or> (w < 0 \<and> 0 < nrows (hd data)) \<longrightarrow>
            group_sum L (nrows (hd data)) w (int (ncols (hd data)) - w) data = Inl ValueError \<and>
            time_segment_matching L data w = Inl ValueError) \<and>
         (same_shape data \<and> (w = int (ncols (hd data)) \<or> w = 0) \<longrightarrow>
            time_segment_matching L data w = Inl IndexError)"
proof -
  define D where "D = nrows (hd data)"
  define n where "n = int (ncols (hd data)) - w"
  note c = tsm_cases[OF assms(1) D_def n_def, of L]
  have empty: "nat w * D = 0 \<or> nat n = 0" using assms(2) by (auto simp: n_def)
  have 1: "time_segment_matching L data w = Inl ValueError \<or>
          time_segment_matching L data w = Inl IndexError"
    unfolding c using empty by simp
  have 2: "group_sum L D w n data = Inl ValueError \<and>
            time_segment_matching L data w = Inl ValueError"
    if "int (ncols (hd data)) < w \<or> (w < 0 \<and> 0 < nrows (hd data))"
  proof -
    have "int D * w < 0 \<or> n < 0" using that by (auto simp: D_def n_def mult_less_0_iff)
    then show ?thesis unfolding c by (simp add: group_sum_cases)
  qed
  have 3: "time_segment_matching L data w = Inl IndexError"
    if "same_shape data \<and> (w = int (ncols (hd data)) \<or> w = 0)"
  proof -
    have w: "0 \<le> w" "w \<le> int (ncols (hd data))" using that by auto
    have "\<forall>d\<in>set data. nrows d = D \<and> ncols d = ncols (hd data)"
      using that by (simp add: same_shape_def list_all_iff D_def)
    then have "\<forall>d\<in>set data. accepted D (nat w) (nat n) d"
      unfolding n_def using w by (auto intro: valid_accepted)
    moreover have "\<not> (int D * w < 0 \<or> n < 0)"
      using w by (simp add: n_def not_less zero_le_mult_iff)
    ultimately show ?thesis unfolding c using empty by simp
  qed
  show ?thesis using 1 2 3 unfolding D_def n_def by blast
qed

text \<open>The theorem at concrete inputs: windows 3, -1, 2 and 0 on one subject with \<open>T = 2\<close>.\<close>

theorem window_not_validated_witness:
  "ex_short \<noteq> [] \<and> int (ncols (hd ex_short)) < 3 \<and>
   group_sum float64 (nrows (hd ex_short)) 3 (int (ncols (hd ex_short)) - 3) ex_short = Inl ValueError \<and>
   time_segment_matching float64 ex_short 3 = Inl ValueError \<and>
   (-1::int) < 0 \<and> 0 < nrows (hd ex_short) \<and>
   time_segment_matching float64 ex_short (-1) = Inl ValueError \<and>
   same_shape ex_short \<and> (2::int) = int (ncols (hd ex_short)) \<and>
   time_segment_matching float64 ex_short 2 = Inl IndexError \<and>
   time_segment_matching float64 ex_short 0 = Inl IndexError"
proof -
  have h: "ex_short \<noteq> []" and a: "int (ncols (hd ex_short)) < 3"
    and b: "(2::int) = int (ncols (hd ex_short))" and s: "same_shape ex_short"
    and n: "(-1::int) < 0" "0 < nrows (hd ex_short)"
    by (simp_all add: ex_short_shape)
  have 1: "group_sum float64 (nrows (hd ex_short)) 3 (int (ncols (hd ex_short)) - 3) ex_short = Inl ValueError \<and>
           time_segment_matching float64 ex_short 3 = Inl ValueError"
    using window_not_validated[OF h, where w = 3 and L = float64] a by simp
  have 2: "time_segment_matching float64 ex_short (-1) = Inl ValueError"
    using window_not_validated[OF h, where w = "-1" and L = float64] n by simp
  have 3: "time_segment_matching float64 ex_short 2 = Inl IndexError"
    using window_not_validated[OF h, where w = 2 and L = float64] b s by simp
  have 4: "time_segment_matching float64 ex_short 0 = Inl IndexError"
    using window_not_validated[OF h, where w = 0 and L = float64] s by simp
  show ?thesis
    using h a n b s 1 2 3 4 by (intro conjI) blast+
qed

text \<open>
  C5 as the specification states it fails: one subject with \<open>T = 2\<close> and
  \<open>win_size = 3\<close> ends in ValueError, not in InvalidWindowError.
\<close>

theorem window_not_validated_counterexample:
  "time_segment_matching float64 [array [[1, 2]]] 3 = Inl ValueError \<and>
   time_segment_matching float64 [array [[1, 2]]] 3 \<noteq> Inl InvalidWindowError"
  by (simp add: time_segment_matching_def group_sum_def np_zeros_def array_def)

text \<open>
  C6 (zero-variance tolerance), for the standardisation and the correlation that the
  specification describes. On a valid input with at least one feature the call returns,
  whatever the values of the data are. A column of a matrix whose entries are all equal
  is standardised to a column of zeros. An entry \<open>[p][q]\<close> of the correlation matrix is
  0, a finite number, when column \<open>p\<close> of the held-out subject's segment matrix is
  constant or column \<open>q\<close> of the matrix \<open>trn_data - tst_data\<close> is constant.
\<close>

theorem zero_variance_tolerated:
  assumes "zscore_nan L = spec_zscore" "correlate L = spec_correlation"
    and "valid_input data w" "0 < nrows (hd data)"
  shows "(\<exists>acc out. time_segment_matching L data w = Inr (acc, out)) \<and>
         (\<forall>a j c. (\<forall>i<nrows a. cell a i j = c) \<longrightarrow>
            (\<forall>i. cell (nan_to_num_zscore L a) i j = 0)) \<and>
         (\<forall>trn tst cm p q.
            corr_matrix L trn tst = Inr cm \<and> p < ncols tst \<and> q < ncols trn \<and>
            ((\<exists>c. \<forall>i<nrows tst. cell tst i p = c) \<or>
             (\<exists>c. \<forall>i<nrows trn. cell (subtract L trn tst) i q = c)) \<longrightarrow>
            cell cm p q = Fin 0)"
proof (intro conjI allI impI)
  define D where "D = nrows (hd data)"
  define n where "n = int (ncols (hd data)) - w"
  note v = valid_inputD[OF assms(3) D_def n_def]
  have "time_segment_matching L data w =
     Inr (accuracies L D w n data, report L (accuracies L D w n data))"
    using assms(4) by (intro run_ok[OF v(1) D_def n_def v(2,3) _ v(4)]) (simp add: D_def)
  then show "\<exists>acc out. time_segment_matching L data w = Inr (acc, out)" by blast
next
  fix a :: "real ndarray" and j c i
  assume "\<forall>i<nrows a. cell a i j = c"
  then have "spec_zscore a i j = 0" by (rule spec_zscore_constant)
  then show "cell (nan_to_num_zscore L a) i j = 0"
    by (simp add: nan_to_num_zscore_def assms(1))
next
  fix trn tst :: "real ndarray" and cm p q
  assume h: "corr_matrix L trn tst = Inr cm \<and> p < ncols tst \<and> q < ncols trn \<and>
            ((\<exists>c. \<forall>i<nrows tst. cell tst i p = c) \<or>
             (\<exists>c. \<forall>i<nrows trn. cell (subtract L trn tst) i q = c))"
  then have cm: "cm = corr_closed L trn tst" by (auto dest: corr_matrix_Inr)
  let ?B = "transpose_arr (nan_to_num_zscore L tst)"
  let ?A = "transpose_arr (nan_to_num_zscore L (subtract L trn tst))"
  have cell: "cell cm p q = Fin (pearson (row ?B p) (row ?A q))"
    by (simp add: cm corr_closed_def assms(2) spec_correlation_def)
  from h consider (tst) c where "\<forall>i<nrows tst. cell tst i p = c"
    | (trn) c where "\<forall>i<nrows trn. cell (subtract L trn tst) i q = c"
    by blast
  then have "pearson (row ?B p) (row ?A q) = 0"
  proof cases
    case tst
    have z: "spec_zscore tst v p = 0" for v using tst by (rule spec_zscore_constant)
    have "\<forall>v\<in>set (row ?B p). v = 0"
      by (auto simp: row_def transpose_arr_def nan_to_num_zscore_def assms(1) z)
    then show ?thesis by (rule pearson_zero_left)
  next
    case trn
    have "nrows (subtract L trn tst) = nrows trn" by (simp add: subtract_def)
    then have "\<forall>i<nrows (subtract L trn tst). cell (subtract L trn tst) i q = c"
      using trn by simp
    then have z: "spec_zscore (subtract L trn tst) v q = 0" for v by (rule spec_zscore_constant)
    have "\<forall>v\<in>set (row ?A q). v = 0"
      by (auto simp: row_def transpose_arr_def nan_to_num_zscore_def assms(1) z)
    then show ?thesis by (rule pearson_zero_right)
  qed
  then show "cell cm p q = Fin 0" using cell by simp
qed

text \<open>
  The theorem at a concrete input: the first segment of the first subject of \<open>ex_const\<close>
  has the value 7 in both features.
\<close>

theorem zero_variance_tolerated_witness:
  "zscore_nan float64 = spec_zscore \<and> correlate float64 = spec_correlation \<and>
   valid_input ex_const 1 \<and> 0 < nrows (hd ex_const) \<and>
   (\<exists>acc out. time_segment_matching float64 ex_const 1 = Inr (acc, out)) \<and>
   nrows (seg_closed 2 1 2 (ex_const ! 0)) = 2 \<and>
   cell (seg_closed 2 1 2 (ex_const ! 0)) 0 0 = 7 \<and>
   cell (seg_closed 2 1 2 (ex_const ! 0)) 1 0 = 7 \<and>
   cell (nan_to_num_zscore float64 (seg_closed 2 1 2 (ex_const ! 0))) 0 0 = 0 \<and>
   cell (nan_to_num_zscore float64 (seg_closed 2 1 2 (ex_const ! 0))) 1 0 = 0 \<and>
   corr_matrix float64 (sum_closed float64 2 1 2 ex_const) (seg_closed 2 1 2 (ex_const ! 0)) =
     Inr (corr_closed float64 (sum_closed float64 2 1 2 ex_const) (seg_closed 2 1 2 (ex_const ! 0))) \<and>
   cell (corr_closed float64 (sum_closed float64 2 1 2 ex_const) (seg_closed 2 1 2 (ex_const ! 0))) 0 0 = Fin 0 \<and>
   cell (corr_closed float64 (sum_closed float64 2 1 2 ex_const) (seg_closed 2 1 2 (ex_const ! 0))) 0 1 = Fin 0"
proof -
  let ?tst = "seg_closed 2 1 2 (ex_const ! 0)"
  let ?trn = "sum_closed float64 2 1 2 ex_const"
  have l: "zscore_nan float64 = spec_zscore" "correlate float64 = spec_correlation" by simp_all
  have v: "valid_input ex_const 1" "0 < nrows (hd ex_const)"
    by (simp_all add: ex_const_valid ex_const_shape)
  note t = zero_variance_tolerated[OF l v]
  have r: "\<exists>acc out. time_segment_matching float64 ex_const 1 = Inr (acc, out)"
    using t by blast
  have s: "nrows ?tst = 2" "cell ?tst 0 0 = 7" "cell ?tst 1 0 = 7"
    by (simp_all add: seg_closed_def window_rows_def bcast_def col_slice_def ex_const_def array_def)
  have c: "\<forall>i<nrows ?tst. cell ?tst i 0 = 7"
    using s by (auto simp: less_Suc_eq numeral_2_eq_2)
  have z: "\<forall>i. cell (nan_to_num_zscore float64 ?tst) i 0 = 0"
    using t c by blast
  have cm: "corr_matrix float64 ?trn ?tst = Inr (corr_closed float64 ?trn ?tst)"
    by (simp add: corr_matrix_cases seg_closed_def sum_closed_def)
  have p: "(0::nat) < ncols ?tst" "(0::nat) < ncols ?trn" "(1::nat) < ncols ?trn"
    by (simp_all add: seg_closed_def sum_closed_def)
  have k: "\<And>q. q < ncols ?trn \<Longrightarrow> cell (corr_closed float64 ?trn ?tst) 0 q = Fin 0"
    using t cm p(1) c by blast
  show ?thesis
    using l v r s z cm k[OF p(2)] k[OF p(3)] by (intro conjI) blast+
qed

text \<open>
  C7 (as the code has it). \<open>D\<close> and \<open>T\<close> are read from the first subject only and no
  shape is validated; ShapeMismatchError is never raised. With at least one subject and
  \<open>0 < win_size < T\<close> the call fails with the ValueError of numpy's broadcasting, raised
  while the group sum is accumulated, when some subject has a window slice that does not
  broadcast into a block of \<open>D\<close> rows and \<open>nseg\<close> columns. When there is no such subject
  the call returns if \<open>D > 0\<close>, and fails with the IndexError of \<open>compute_correlation\<close>
  if \<open>D = 0\<close>. A subject whose number of rows is neither \<open>D\<close> nor 1 is a subject whose
  slices do not broadcast; a subject with \<open>D\<close> rows and at least \<open>T - 1\<close> columns is not.
\<close>

theorem shape_not_validated:
  assumes "data \<noteq> []" "0 < w" "w < int (ncols (hd data))"
    and "D = nrows (hd data)" "n = int (ncols (hd data)) - w"
  shows "((\<exists>d\<in>set data. \<not> accepted D (nat w) (nat n) d) \<longrightarrow>
            time_segment_matching L data w = Inl ValueError) \<and>
         ((\<forall>d\<in>set data. accepted D (nat w) (nat n) d) \<and> 0 < D \<longrightarrow>
            (\<exists>acc out. time_segment_matching L data w = Inr (acc, out))) \<and>
         ((\<forall>d\<in>set data. accepted D (nat w) (nat n) d) \<and> D = 0 \<longrightarrow>
            time_segment_matching L data w = Inl IndexError) \<and>
         (\<forall>d\<in>set data. nrows d \<noteq> D \<and> nrows d \<noteq> 1 \<longrightarrow> \<not> accepted D (nat w) (nat n) d) \<and>
         (\<forall>d\<in>set data. nrows d = D \<and> ncols (hd data) - 1 \<le> ncols d \<longrightarrow>
            accepted D (nat w) (nat n) d)"
proof -
  note c = tsm_cases[OF assms(1,4,5), of L]
  have ok: "\<not> (int D * w < 0 \<or> n < 0)" "0 < nat w" "0 < nat n"
    using assms(2,3,5) by (simp_all add: not_less zero_le_mult_iff)
  have 1: "time_segment_matching L data w = Inl ValueError"
    if "\<exists>d\<in>set data. \<not> accepted D (nat w) (nat n) d"
    unfolding c using ok that by simp
  have 2: "\<exists>acc out. time_segment_matching L data w = Inr (acc, out)"
    if "(\<forall>d\<in>set data. accepted D (nat w) (nat n) d) \<and> 0 < D"
    unfolding c using ok that by simp
  have 3: "time_segment_matching L data w = Inl IndexError"
    if "(\<forall>d\<in>set data. accepted D (nat w) (nat n) d) \<and> D = 0"
  proof -
    have a: "\<forall>d\<in>set data. accepted D (nat w) (nat n) d" using that by blast
    have e: "nat w * D = 0 \<or> nat n = 0" using that by simp
    have a': "\<not> \<not> (\<forall>d\<in>set data. accepted D (nat w) (nat n) d)" using a by blast
    show ?thesis unfolding c using ok(1) a' e by (simp only: if_True if_False)
  qed
  have 4: "\<not> accepted D (nat w) (nat n) d" if "nrows d \<noteq> D \<and> nrows d \<noteq> 1" for d
    using that assms(2) by (simp add: rows_mismatch_rejected)
  have 5: "accepted D (nat w) (nat n) d"
    if "nrows d = D \<and> ncols (hd data) - 1 \<le> ncols d" for d
    using that unfolding assms(5) using assms(2,3) by (intro longer_accepted) simp_all
  show ?thesis using 1 2 3 4 5 by blast
qed

text \<open>
  The theorem at concrete inputs: a second subject with two rows, a second subject with
  one more column, and a subject without rows.
\<close>

theorem shape_not_validated_witness:
  "ex_rows \<noteq> [] \<and> (0::int) < 1 \<and> (1::int) < int (ncols (hd ex_rows)) \<and>
   (1::nat) = nrows (hd ex_rows) \<and> (2::int) = int (ncols (hd ex_rows)) - 1 \<and>
   nrows (ex_rows ! 1) \<noteq> 1 \<and>
   \<not> accepted 1 (nat 1) (nat 2) (ex_rows ! 1) \<and>
   time_segment_matching float64 ex_rows 1 = Inl ValueError \<and>
   ex_longer \<noteq> [] \<and> (1::int) < int (ncols (hd ex_longer)) \<and>
   (1::nat) = nrows (hd ex_longer) \<and> (2::int) = int (ncols (hd ex_longer)) - 1 \<and>
   nrows (ex_longer ! 1) = 1 \<and> ncols (hd ex_longer) - 1 \<le> ncols (ex_longer ! 1) \<and>
   accepted 1 (nat 1) (nat 2) (ex_longer ! 1) \<and>
   (\<exists>acc out. time_segment_matching float64 ex_longer 1 = Inr (acc, out)) \<and>
   ex_nofeat \<noteq> [] \<and> (1::int) < int (ncols (hd ex_nofeat)) \<and>
   (0::nat) = nrows (hd ex_nofeat) \<and> (2::int) = int (ncols (hd ex_nofeat)) - 1 \<and>
   accepted 0 (nat 1) (nat 2) (hd ex_nofeat) \<and>
   time_segment_matching float64 ex_nofeat 1 = Inl IndexError"
proof -
  have r: "ex_rows \<noteq> []" "(0::int) < 1" "(1::int) < int (ncols (hd ex_rows))"
    "(1::nat) = nrows (hd ex_rows)" "(2::int) = int (ncols (hd ex_rows)) - 1"
    by (simp_all add: ex_rows_shape)
  have rm: "ex_rows ! 1 \<in> set ex_rows" "nrows (ex_rows ! 1) \<noteq> 1"
    by (simp_all add: ex_rows_def array_def)
  note R = shape_not_validated[OF r, where L = float64]
  have r1: "\<not> accepted 1 (nat 1) (nat 2) (ex_rows ! 1)"
    using R rm by blast
  then have r2: "time_segment_matching float64 ex_rows 1 = Inl ValueError"
    using R rm(1) by blast
  have l: "ex_longer \<noteq> []" "(0::int) < 1" "(1::int) < int (ncols (hd ex_longer))"
    "(1::nat) = nrows (hd ex_longer)" "(2::int) = int (ncols (hd ex_longer)) - 1"
    by (simp_all add: ex_longer_shape)
  have lm: "nrows (ex_longer ! 1) = 1" "ncols (hd ex_longer) - 1 \<le> ncols (ex_longer ! 1)"
    "\<forall>d\<in>set ex_longer. nrows d = 1 \<and> ncols (hd ex_longer) - 1 \<le> ncols d"
    "ex_longer ! 1 \<in> set ex_longer"
    by (simp_all add: ex_longer_def array_def)
  note L = shape_not_validated[OF l, where L = float64]
  have l1: "\<forall>d\<in>set ex_longer. accepted 1 (nat 1) (nat 2) d"
    using L lm(3) by blast
  then have l2: "\<exists>acc out. time_segment_matching float64 ex_longer 1 = Inr (acc, out)"
    using L by blast
  have l3: "accepted 1 (nat 1) (nat 2) (ex_longer ! 1)"
    using l1 lm(4) by blast
  have z: "ex_nofeat \<noteq> []" "(0::int) < 1" "(1::int) < int (ncols (hd ex_nofeat))"
    "(0::nat) = nrows (hd ex_nofeat)" "(2::int) = int (ncols (hd ex_nofeat)) - 1"
    by (simp_all add: ex_nofeat_shape)
  have zm: "\<forall>d\<in>set ex_nofeat. nrows d = 0 \<and> ncols (hd ex_nofeat) - 1 \<le> ncols d"
    "hd ex_nofeat \<in> set ex_nofeat"
    by (simp_all add: ex_nofeat_def zeros_def)
  note Z = shape_not_validated[OF z, where L = float64]
  have z1: "\<forall>d\<in>set ex_nofeat. accepted 0 (nat 1) (nat 2) d"
    using Z zm(1) by blast
  then have z2: "time_segment_matching float64 ex_nofeat 1 = Inl IndexError"
    using Z by blast
  have z3: "accepted 0 (nat 1) (nat 2) (hd ex_nofeat)"
    using z1 zm(2) by blast
  show ?thesis
    using r rm(2) r1 r2 l(1,3,4,5) lm(1,2) l3 l2 z(1,3,4,5) z3 z2 by (intro conjI)
qed

text \<open>
  C7 as the specification states it fails: two subjects with 3 and 4 time points are
  processed without any error, and both get the accuracy 1/2.
\<close>

theorem shape_not_validated_counterexample:
  "ncols (array [[1, 2, 3::real]]) \<noteq> ncols (array [[1, 2, 3, 4::real]]) \<and>
   time_segment_matching float64 [array [[1, 2, 3]], array [[1, 2, 3, 4]]] 1 =
     Inr ([1/2, 1/2], report float64 [1/2, 1/2]) \<and>
   time_segment_matching float64 [array [[1, 2, 3]], array [[1, 2, 3, 4]]] 1
     \<noteq> Inl ShapeMismatchError"
  using ex_longer_run by (simp add: ex_longer_def array_def)

text \<open>
  C8 (as the code has it). With no subject, \<open>data[0]\<close> raises IndexError: the call fails,
  with Python's IndexError.
\<close>

theorem empty_input_IndexError:
  "time_segment_matching L [] win_size = Inl IndexError"
  by (simp add: time_segment_matching_def)

text \<open>
  C8 as the specification states it fails: the error of the empty input is IndexError,
  not EmptyInputError.
\<close>

theorem empty_input_counterexample:
  "time_segment_matching float64 [] 10 = Inl IndexError \<and>
   time_segment_matching float64 [] 10 \<noteq> Inl EmptyInputError"
  by (simp add: time_segment_matching_def)




text \<open>
  C10 (short series, as the code has it). On a valid input with at least one feature
  and \<open>nseg \<le> win_size\<close>, and with a division for which \<open>b / b = 1\<close>, the exclusion loop
  stores \<open>-inf\<close> in every off-diagonal entry of every subject's correlation matrix, the
  prediction of every row is the row's own index, and every accuracy is 1, whatever the
  data and the library calls are.
\<close>

theorem short_series_degenerate:
  assumes "valid_input data w" "0 < nrows (hd data)" "quotient_ok (fdiv L)"
    and "D = nrows (hd data)" "n = int (ncols (hd data)) - w" "n \<le> w"
  shows "\<exists>trn out.
     group_sum L D w n data = Inr trn \<and>
     time_segment_matching L data w = Inr (replicate (length data) 1, out) \<and>
     (\<forall>i<length data. \<exists>tst cm.
        segment_matrix D w n (data ! i) = Inr tst \<and>
        corr_matrix L trn tst = Inr cm \<and>
        (\<forall>p<nat n.
           (\<forall>q<nat n. q \<noteq> p \<longrightarrow> cell (mask_overlap w (nat n) cm) p q = NegInf) \<and>
           argmax_row (row (mask_overlap w (nat n) cm) p) = p))"
proof -
  note v = valid_inputD[OF assms(1,4,5)]
  have D: "0 < D" using assms(2,4) by simp
  let ?trn = "sum_closed L D (nat w) (nat n) data"
  have nc: "ncols ?trn = nat n" by (simp add: sum_closed_def)
  have gs: "group_sum L D w n data = Inr ?trn"
    using v by (simp add: group_sum_cases not_less[symmetric] mult_less_0_iff)
  have run: "time_segment_matching L data w =
     Inr (accuracies L D w n data, report L (accuracies L D w n data))"
    using v(1) assms(4,5) v(2,3) D v(4) by (rule run_ok)
  have "accuracies L D w n data = map (\<lambda>i. 1) [0..<length data]"
    unfolding accuracies_def using v(3) assms(3,6) nc by (simp add: degenerate_accuracy)
  then have ones: "accuracies L D w n data = replicate (length data) 1"
    by (simp add: map_replicate_const)
  have each: "\<exists>tst cm. segment_matrix D w n (data ! i) = Inr tst \<and>
        corr_matrix L ?trn tst = Inr cm \<and>
        (\<forall>p<nat n.
           (\<forall>q<nat n. q \<noteq> p \<longrightarrow> cell (mask_overlap w (nat n) cm) p q = NegInf) \<and>
           argmax_row (row (mask_overlap w (nat n) cm) p) = p)"
    if "i < length data" for i
  proof -
    let ?tst = "seg_closed D (nat w) (nat n) (data ! i)"
    have "accepted D (nat w) (nat n) (data ! i)" using v(4) that by simp
    then have seg: "segment_matrix D w n (data ! i) = Inr ?tst"
      using v by (intro segment_matrix_closed) simp_all
    have cm: "corr_matrix L ?trn ?tst = Inr (corr_closed L ?trn ?tst)"
      using v(2,3) D by (simp add: corr_matrix_cases seg_closed_def sum_closed_def)
    have "\<forall>p<nat n.
           (\<forall>q<nat n. q \<noteq> p \<longrightarrow>
              cell (mask_overlap w (nat n) (corr_closed L ?trn ?tst)) p q = NegInf) \<and>
           argmax_row (row (mask_overlap w (nat n) (corr_closed L ?trn ?tst)) p) = p"
      using assms(6) nc by (auto simp: degenerate_cell degenerate_argmax)
    then show ?thesis using seg cm by blast
  qed
  show ?thesis
  proof (intro exI conjI)
    show "group_sum L D w n data = Inr ?trn" by (rule gs)
    show "time_segment_matching L data w =
       Inr (replicate (length data) 1, report L (accuracies L D w n data))"
      using run ones by simp
    show "\<forall>i<length data. \<exists>tst cm. segment_matrix D w n (data ! i) = Inr tst \<and>
        corr_matrix L ?trn tst = Inr cm \<and>
        (\<forall>p<nat n.
           (\<forall>q<nat n. q \<noteq> p \<longrightarrow> cell (mask_overlap w (nat n) cm) p q = NegInf) \<and>
           argmax_row (row (mask_overlap w (nat n) cm) p) = p)"
      using each by blast
  qed
qed

text \<open>The theorem at a concrete input: \<open>T = 4\<close> and \<open>win_size = 2\<close>, in float64.\<close>

theorem short_series_degenerate_witness:
  "valid_input ex_four 2 \<and> 0 < nrows (hd ex_four) \<and> quotient_ok (fdiv float64) \<and>
   (1::nat) = nrows (hd ex_four) \<and>
   (2::int) = int (ncols (hd ex_four)) - 2 \<and> (2::int) \<le> 2 \<and>
   (\<exists>trn out.
     group_sum float64 1 2 2 ex_four = Inr trn \<and>
     time_segment_matching float64 ex_four 2 = Inr (replicate (length ex_four) 1, out) \<and>
     (\<forall>i<length ex_four. \<exists>tst cm.
        segment_matrix 1 2 2 (ex_four ! i) = Inr tst \<and>
        corr_matrix float64 trn tst = Inr cm \<and>
        (\<forall>p<nat 2.
           (\<forall>q<nat 2. q \<noteq> p \<longrightarrow> cell (mask_overlap 2 (nat 2) cm) p q = NegInf) \<and>
           argmax_row (row (mask_overlap 2 (nat 2) cm) p) = p)))"
proof -
  have h: "valid_input ex_four 2" "0 < nrows (hd ex_four)" "quotient_ok (fdiv float64)"
    "(1::nat) = nrows (hd ex_four)"
    "(2::int) = int (ncols (hd ex_four)) - 2" "(2::int) \<le> 2"
    by (simp_all add: ex_four_valid ex_four_shape quotient_ok_float64)
  show ?thesis
    using h short_series_degenerate[OF h] by (intro conjI)
qed

text \<open>
  C10 as the specification states it fails: a valid input with \<open>nseg = 1 \<le> win_size = 2\<close>
  whose subject has no feature ends in IndexError, not in the accuracy 1.
\<close>

theorem short_series_degenerate_counterexample:
  "valid_input ex_nofeat 2 \<and>
   int (ncols (hd ex_nofeat)) - 2 = 1 \<and> (0::int) < 1 \<and> (1::int) \<le> 2 \<and>
   time_segment_matching float64 ex_nofeat 2 = Inl IndexError"
proof -
  have f: "time_segment_matching float64 ex_nofeat 2 = Inl IndexError"
    by (rule ex_nofeat_fails) simp_all
  show ?thesis using ex_nofeat_valid(2) f by (simp add: ex_nofeat_shape)
qed

end
